theory Spec2Isabelle
  imports Complex_Main
begin

section \<open>Lightmap bake pipeline (bake\_lightmaps.py): data model\<close>

text \<open>
  The script drives the host application's scene graph.  The model keeps the part of
  that graph the script reads and writes: objects with their mesh or light data,
  UV layers, material node trees, the collection hierarchy and the selection.
  Coordinates are exact rationals (an idealisation of the host's floats).
\<close>

type_synonym uv = "rat \<times> rat"
type_synonym vec3 = "rat \<times> rat \<times> rat"

datatype py_error = IndexError | AttributeError

subsection \<open>UV unwrap quality reports (setup\_uvs, repack\_joined\_lightmap\_uvs)\<close>













subsection \<open>Meshes and UV layers\<close>

record uv_layer =
  layer_name :: string
  uv_data :: "uv list"           \<comment> \<open>\<^verbatim>\<open>layer.data[loop_idx].uv\<close>, one coordinate per loop\<close>
  active :: bool
  active_render :: bool

record mesh =
  vertices :: "vec3 list"        \<comment> \<open>\<^verbatim>\<open>mesh.vertices[i].co\<close>\<close>
  loops :: "nat list"            \<comment> \<open>\<^verbatim>\<open>mesh.loops[i].vertex_index\<close>\<close>
  polygons :: "nat list list"    \<comment> \<open>\<^verbatim>\<open>poly.loop_indices\<close> of each polygon\<close>
  uv_layers :: "uv_layer list"

definition LIGHTMAP_UV_NAME :: string where
  "LIGHTMAP_UV_NAME = ''LightmapUV''"

text \<open>\<^verbatim>\<open>name in mesh.uv_layers\<close> and \<^verbatim>\<open>mesh.uv_layers[name]\<close>: the first layer of that name.\<close>

definition has_layer :: "string \<Rightarrow> mesh \<Rightarrow> bool" where
  "has_layer nm m = (nm \<in> set (map layer_name (uv_layers m)))"

fun layer_index :: "string \<Rightarrow> uv_layer list \<Rightarrow> nat option" where
  "layer_index nm [] = None"
| "layer_index nm (l # ls) =
     (if layer_name l = nm then Some 0 else map_option Suc (layer_index nm ls))"

text \<open>
  The host keeps one active and one active-render layer per mesh: setting the flag
  of a layer clears it on the others.
\<close>

definition set_active :: "nat \<Rightarrow> uv_layer list \<Rightarrow> uv_layer list" where
  "set_active i ls = map (\<lambda>(j, l). l\<lparr>active := (j = i)\<rparr>) (enumerate 0 ls)"

definition set_active_render :: "nat \<Rightarrow> uv_layer list \<Rightarrow> uv_layer list" where
  "set_active_render i ls = map (\<lambda>(j, l). l\<lparr>active_render := (j = i)\<rparr>) (enumerate 0 ls)"

subsection \<open>Objects, materials, collections, scene\<close>

record modifier =
  mod_name :: string
  show_viewport :: bool

datatype socket_value = Scalar rat | Color rat rat rat rat

record node =
  node_name :: string                       \<comment> \<open>unique inside its tree\<close>
  node_type :: string                       \<comment> \<open>what \<^verbatim>\<open>node.type\<close> reads\<close>
  node_image :: "string option"             \<comment> \<open>\<^verbatim>\<open>node.image.name\<close>, \<open>None\<close> when there is no image\<close>
  node_inputs :: "socket_value list"        \<comment> \<open>\<^verbatim>\<open>node.inputs[i].default_value\<close>\<close>
  node_vector :: "string list option"       \<comment> \<open>the links into the input named Vector (their
                                                 from-nodes), \<open>None\<close> when there is no such input\<close>
  node_uv_map :: "string option"            \<comment> \<open>\<^verbatim>\<open>node.uv_map\<close>, \<open>None\<close> when the node has no such attribute\<close>

record material =
  use_nodes :: bool
  nodes :: "node list"                      \<comment> \<open>\<^verbatim>\<open>material.node_tree.nodes\<close>\<close>

datatype obj_data =
    MeshData mesh                           \<comment> \<open>\<^verbatim>\<open>obj.type == 'MESH'\<close>\<close>
  | LightData "rat option"                  \<comment> \<open>\<^verbatim>\<open>obj.type == 'LIGHT'\<close>; \<^verbatim>\<open>obj.data.energy\<close> when it has one\<close>
  | OtherData

record object =
  obj_name :: string
  obj_data :: obj_data
  material_slots :: "nat option list"       \<comment> \<open>\<^verbatim>\<open>slot.material\<close> of each slot\<close>
  modifiers :: "modifier list"
  selected :: bool
  hide_viewport :: bool
  hide_render :: bool

datatype collection =
  Collection (coll_name: string) (coll_objects: "nat list") (coll_children: "collection list")

text \<open>
  Objects and materials are shared by reference in the script, so the scene is a store:
  an object or a material is an identifier bound in \<open>objects\<close> or \<open>materials\<close>.
  Identifiers below \<open>next_object\<close> and \<open>next_material\<close> are the ones handed out so far.
  A mesh data-block belongs to its object (apply\_modifiers makes every shared one
  single-user before any later stage writes to it).
\<close>

record scene =
  objects :: "nat \<rightharpoonup> object"
  next_object :: nat
  materials :: "nat \<rightharpoonup> material"
  next_material :: nat
  scene_collection :: collection            \<comment> \<open>the root of the collection hierarchy\<close>
  active_object :: "nat option"
  images :: "string list"                   \<comment> \<open>names in \<^verbatim>\<open>bpy.data.images\<close>\<close>

text \<open>
  What the host's operators compute is not part of the script.  Each operator the
  pipeline calls is a parameter: the stages below are written over any host.
  An operator that can raise returns \<open>None\<close> there.
\<close>

record host =
  h_uv_init :: "mesh \<Rightarrow> nat \<Rightarrow> uv"                       \<comment> \<open>coordinates a new UV layer starts with, per loop\<close>
  h_modifier_apply :: "modifier \<Rightarrow> object \<Rightarrow> object option" \<comment> \<open>\<^verbatim>\<open>bpy.ops.object.modifier_apply\<close>\<close>
  h_join :: "object \<Rightarrow> object list \<Rightarrow> object"            \<comment> \<open>\<^verbatim>\<open>bpy.ops.object.join\<close>: active, other selected\<close>
  h_remove_doubles :: "mesh \<Rightarrow> mesh"
  h_normals_make_consistent :: "mesh \<Rightarrow> mesh"
  h_quads_convert_to_tris :: "mesh \<Rightarrow> mesh"
  h_copy_name :: "string \<Rightarrow> string"                      \<comment> \<open>the name the host gives a duplicate\<close>
  h_smart_project :: "scene \<Rightarrow> (mesh \<Rightarrow> nat \<Rightarrow> uv) option"
    \<comment> \<open>the UV operators write the active layer of every mesh in edit mode: the new
        coordinate of each loop, or \<open>None\<close> when the operator raises\<close>
  h_pack_islands :: "scene \<Rightarrow> (mesh \<Rightarrow> nat \<Rightarrow> uv) option"
  h_unwrap :: "scene \<Rightarrow> (mesh \<Rightarrow> nat \<Rightarrow> uv) option"
  h_new_node :: "string list \<Rightarrow> string \<Rightarrow> node"
    \<comment> \<open>\<^verbatim>\<open>nodes.new(type=...)\<close>: the node the host makes in a tree with the given node names\<close>
  h_default_nodes :: "node list"                        \<comment> \<open>the tree of a fresh material with nodes\<close>
  h_export_layout :: "scene \<Rightarrow> bool"                     \<comment> \<open>whether \<^verbatim>\<open>bpy.ops.uv.export_layout\<close> succeeded\<close>
  h_export_gltf :: "scene \<Rightarrow> bool"                       \<comment> \<open>whether \<^verbatim>\<open>bpy.ops.export_scene.gltf\<close> succeeded\<close>

text \<open>
  \<^verbatim>\<open>mesh.uv_layers.new(name=...)\<close>: the layer is appended, with a coordinate for every
  loop; the callers set its flags.
\<close>

definition uv_layers_new :: "host \<Rightarrow> string \<Rightarrow> mesh \<Rightarrow> mesh" where
  "uv_layers_new h nm m =
     m\<lparr>uv_layers := uv_layers m @
        [\<lparr>layer_name = nm, uv_data = map (h_uv_init h m) [0..<length (loops m)],
          active = False, active_render = False\<rparr>]\<rparr>"

definition update_object :: "nat \<Rightarrow> (object \<Rightarrow> object) \<Rightarrow> scene \<Rightarrow> scene" where
  "update_object i f sc =
     (case objects sc i of
        None \<Rightarrow> sc
      | Some ob \<Rightarrow> sc\<lparr>objects := (objects sc)(i \<mapsto> f ob)\<rparr>)"

definition update_mesh :: "(mesh \<Rightarrow> mesh) \<Rightarrow> object \<Rightarrow> object" where
  "update_mesh f ob =
     (case obj_data ob of MeshData m \<Rightarrow> ob\<lparr>obj_data := MeshData (f m)\<rparr> | _ \<Rightarrow> ob)"

definition is_mesh :: "object \<Rightarrow> bool" where
  "is_mesh ob = (case obj_data ob of MeshData m \<Rightarrow> True | _ \<Rightarrow> False)"

text \<open>\<^verbatim>\<open>bpy.ops.object.select_all(action='DESELECT')\<close> and \<^verbatim>\<open>obj.select_set(v)\<close>.\<close>

definition deselect_all :: "scene \<Rightarrow> scene" where
  "deselect_all sc = sc\<lparr>objects := map_option (\<lambda>ob. ob\<lparr>selected := False\<rparr>) \<circ> objects sc\<rparr>"

definition select_set :: "bool \<Rightarrow> nat \<Rightarrow> scene \<Rightarrow> scene" where
  "select_set v i sc = update_object i (\<lambda>ob. ob\<lparr>selected := v\<rparr>) sc"

text \<open>An edit-mode operator acts on the mesh of every selected mesh object.\<close>

definition edit_selected :: "(mesh \<Rightarrow> mesh) \<Rightarrow> scene \<Rightarrow> scene" where
  "edit_selected f sc =
     sc\<lparr>objects := map_option (\<lambda>ob. if selected ob then update_mesh f ob else ob) \<circ> objects sc\<rparr>"

definition write_active_uvs :: "(mesh \<Rightarrow> nat \<Rightarrow> uv) \<Rightarrow> mesh \<Rightarrow> mesh" where
  "write_active_uvs g m =
     m\<lparr>uv_layers :=
        map (\<lambda>l. if active l then l\<lparr>uv_data := map (g m) [0..<length (loops m)]\<rparr> else l)
          (uv_layers m)\<rparr>"

definition selected_objects :: "scene \<Rightarrow> nat list" where
  "selected_objects sc =
     filter (\<lambda>i. case objects sc i of Some ob \<Rightarrow> selected ob | None \<Rightarrow> False)
       [0..<next_object sc]"

subsection \<open>Collections\<close>

fun collect_objects :: "collection \<Rightarrow> nat list" where
  "collect_objects (Collection n os cs) = os @ concat (map collect_objects cs)"

fun all_collections :: "collection \<Rightarrow> collection list" where
  "all_collections (Collection n os cs) = concat (map (\<lambda>c. c # all_collections c) cs)"

fun map_collection :: "(string \<Rightarrow> nat list \<Rightarrow> nat list) \<Rightarrow> collection \<Rightarrow> collection" where
  "map_collection f (Collection n os cs) = Collection n (f n os) (map (map_collection f) cs)"

text \<open>\<^verbatim>\<open>bpy.data.collections.get(name)\<close>: every collection below the scene's root.\<close>

definition collections_get :: "string \<Rightarrow> scene \<Rightarrow> collection option" where
  "collections_get nm sc = find (\<lambda>c. coll_name c = nm) (all_collections (scene_collection sc))"

definition MANSION_COLLECTION_NAME :: string where
  "MANSION_COLLECTION_NAME = ''Mansion''"





subsection \<open>ensure\_uv1\_exists, apply\_modifiers\<close>

definition ensure_uv1_exists :: "host \<Rightarrow> nat list \<Rightarrow> scene \<Rightarrow> scene" where
  "ensure_uv1_exists h objs sc =
     fold (\<lambda>i. update_object i
             (update_mesh (\<lambda>m. if length (uv_layers m) = 0 then uv_layers_new h ''UVMap'' m else m)))
       objs sc"

text \<open>
  A modifier shown in the viewport is applied; a \<^verbatim>\<open>RuntimeError\<close> of the host is caught
  and the object is left as it was.
\<close>

definition apply_modifier :: "host \<Rightarrow> modifier \<Rightarrow> object \<Rightarrow> object" where
  "apply_modifier h md ob =
     (if show_viewport md
      then (case h_modifier_apply h md ob of None \<Rightarrow> ob | Some ob' \<Rightarrow> ob')
      else ob)"

definition apply_modifiers :: "host \<Rightarrow> nat list \<Rightarrow> scene \<Rightarrow> scene" where
  "apply_modifiers h objs sc =
     fold (\<lambda>i s.
             select_set False i
               (update_object i (\<lambda>ob. fold (apply_modifier h) (rev (modifiers ob)) ob)
                 (select_set True i (s\<lparr>active_object := Some i\<rparr>))))
       objs (deselect_all sc)"

subsection \<open>join\_objects\<close>

text \<open>
  \<^verbatim>\<open>bpy.ops.object.duplicate()\<close>: every selected object gets a copy under a new
  identifier, linked to the collections of its original; the copies are the selection
  afterwards.
\<close>

definition op_duplicate :: "host \<Rightarrow> scene \<Rightarrow> scene" where
  "op_duplicate h sc =
     (let sel = selected_objects sc;
          new = [next_object sc ..< next_object sc + length sel];
          copy_of = map_of (zip sel new);
          store = fold (\<lambda>(i, j) st.
                     (case objects sc i of
                        None \<Rightarrow> st
                      | Some ob \<Rightarrow> st(j \<mapsto> ob\<lparr>obj_name := h_copy_name h (obj_name ob)\<rparr>,
                                     i \<mapsto> ob\<lparr>selected := False\<rparr>)))
                   (zip sel new) (objects sc)
      in sc\<lparr>objects := store,
            next_object := next_object sc + length sel,
            scene_collection :=
              map_collection (\<lambda>n os. os @ List.map_filter copy_of os) (scene_collection sc)\<rparr>)"

text \<open>
  \<^verbatim>\<open>bpy.ops.object.join()\<close>: the other selected objects are merged into the active one
  and leave the scene.
\<close>

definition op_join :: "host \<Rightarrow> scene \<Rightarrow> scene" where
  "op_join h sc =
     (case active_object sc of
        None \<Rightarrow> sc
      | Some a \<Rightarrow>
          (case objects sc a of
             None \<Rightarrow> sc
           | Some ob \<Rightarrow>
               (let others = filter (\<lambda>i. i \<noteq> a) (selected_objects sc)
                in sc\<lparr>objects :=
                        (\<lambda>i. if i \<in> set others then None else objects sc i)
                          (a \<mapsto> h_join h ob (List.map_filter (objects sc) others)),
                      scene_collection :=
                        map_collection (\<lambda>n os. filter (\<lambda>i. i \<notin> set others) os)
                          (scene_collection sc)\<rparr>)))"

definition remove_layer :: "nat \<Rightarrow> uv_layer list \<Rightarrow> uv_layer list" where
  "remove_layer i ls = take i ls @ drop (Suc i) ls"

text \<open>The clean-up of the joined mesh: the layer \<^verbatim>\<open>map1\<close> goes, LightmapUV is the render layer.\<close>

definition clean_joined_mesh :: "mesh \<Rightarrow> mesh" where
  "clean_joined_mesh m =
     (let m1 = (case layer_index ''map1'' (uv_layers m) of
                  None \<Rightarrow> m
                | Some i \<Rightarrow> m\<lparr>uv_layers := remove_layer i (uv_layers m)\<rparr>)
      in (case layer_index LIGHTMAP_UV_NAME (uv_layers m1) of
            None \<Rightarrow> m1
          | Some i \<Rightarrow> m1\<lparr>uv_layers := set_active_render i (uv_layers m1)\<rparr>))"

text \<open>
  The joined object leaves every collection it is in and is linked to the collection
  Lightmap\_Baker, which is made under the scene's root when it does not exist.
\<close>

definition move_to_baker :: "nat \<Rightarrow> scene \<Rightarrow> scene" where
  "move_to_baker j sc =
     (let root = (case collections_get ''Lightmap_Baker'' sc of
                    Some c \<Rightarrow> scene_collection sc
                  | None \<Rightarrow>
                      (case scene_collection sc of
                         Collection n os cs \<Rightarrow> Collection n os (cs @ [Collection ''Lightmap_Baker'' [] []])));
          unlinked = map_collection (\<lambda>n os. filter (\<lambda>i. i \<noteq> j) os) root
      in sc\<lparr>scene_collection :=
              map_collection (\<lambda>n os. if n = ''Lightmap_Baker'' then os @ [j] else os) unlinked\<rparr>)"

text \<open>
  join\_objects returns \<open>(joined, originals)\<close> and the new scene.  With one object or none
  it returns at once.  \<^verbatim>\<open>duplicates[0]\<close> raises when nothing was duplicated.
\<close>

definition join_objects :: "host \<Rightarrow> nat list \<Rightarrow> scene \<Rightarrow> py_error + (nat list \<times> nat list \<times> scene)" where
  "join_objects h objs sc =
     (if length objs \<le> 1 then Inr (objs, objs, sc)
      else
        (let sc1 = fold (select_set True) objs (deselect_all sc);
             sc2 = op_duplicate h sc1;
             duplicates = selected_objects sc2
         in (case duplicates of
               [] \<Rightarrow> Inl IndexError
             | d # ds \<Rightarrow>
                 (let sc3 = op_join h (sc2\<lparr>active_object := Some d\<rparr>);
                      sc4 = update_object d
                              (\<lambda>ob. update_mesh clean_joined_mesh
                                      (ob\<lparr>obj_name := ''Mansion_Lightmap_Baker''\<rparr>)) sc3
                  in Inr ([d], objs, move_to_baker d sc4)))))"

subsection \<open>cleanup\_meshes\<close>

definition cleanup_meshes :: "host \<Rightarrow> nat list \<Rightarrow> scene \<Rightarrow> scene" where
  "cleanup_meshes h objs sc =
     (let sc1 = deselect_all sc
      in (case objs of
            [] \<Rightarrow> sc1
          | first # rest \<Rightarrow>
              (let sc2 = (fold (select_set True) objs sc1)\<lparr>active_object := Some first\<rparr>;
                   sc3 = edit_selected (h_remove_doubles h) sc2;
                   sc4 = edit_selected (h_normals_make_consistent h) sc3;
                   sc5 = edit_selected (h_quads_convert_to_tris h) sc4
               in deselect_all sc5)))"

subsection \<open>setup\_uvs\<close>



text \<open>
  Smart UV Project and the island packing; when either raises, the angle based unwrap
  is tried, and when that raises too the layers stay as they are.
\<close>

definition unwrap_lightmap :: "host \<Rightarrow> scene \<Rightarrow> scene" where
  "unwrap_lightmap h sc =
     (let fallback = (\<lambda>s. case h_unwrap h s of
                             None \<Rightarrow> s
                           | Some g \<Rightarrow> edit_selected (write_active_uvs g) s)
      in (case h_smart_project h sc of
            None \<Rightarrow> fallback sc
          | Some g \<Rightarrow>
              (let sc1 = edit_selected (write_active_uvs g) sc
               in (case h_pack_islands h sc1 of
                     None \<Rightarrow> fallback sc1
                   | Some g' \<Rightarrow> edit_selected (write_active_uvs g') sc1))))"

definition mesh_of :: "scene \<Rightarrow> nat \<Rightarrow> mesh option" where
  "mesh_of sc i =
     (case objects sc i of
        None \<Rightarrow> None
      | Some ob \<Rightarrow> (case obj_data ob of MeshData m \<Rightarrow> Some m | _ \<Rightarrow> None))"



subsection \<open>export\_uv\_layout\<close>


subsection \<open>perform\_bake\<close>

text \<open>\<^verbatim>\<open>sub in s\<close> on strings.\<close>

fun py_in :: "string \<Rightarrow> string \<Rightarrow> bool" where
  "py_in sub [] = (sub = [])"
| "py_in sub (c # cs) = (take (length sub) (c # cs) = sub \<or> py_in sub cs)"

fun string_of_nat :: "nat \<Rightarrow> string" where
  "string_of_nat n =
     (if n < 10 then [char_of (48 + n)]
      else string_of_nat (n div 10) @ [char_of (48 + n mod 10)])"

text \<open>The key \<^verbatim>\<open>f"{obj.name}_{slot_idx}_{node_idx}"\<close>.\<close>

definition emission_key :: "string \<Rightarrow> nat \<Rightarrow> nat \<Rightarrow> string" where
  "emission_key name slot_idx node_idx =
     name @ ''_'' @ string_of_nat slot_idx @ ''_'' @ string_of_nat node_idx"

text \<open>
  One light: its energy is stored under the object's name unless a value is stored
  already, then it is set to the stored value (\<open>turn_on\<close>) or to zero.
\<close>

definition configure_light ::
  "bool \<Rightarrow> nat \<Rightarrow> (string \<rightharpoonup> rat) \<times> scene \<Rightarrow> (string \<rightharpoonup> rat) \<times> scene" where
  "configure_light turn_on i st =
     (case st of (original_light_energies, sc) \<Rightarrow>
        (case objects sc i of
           None \<Rightarrow> st
         | Some ob \<Rightarrow>
             (case obj_data ob of
                LightData (Some energy) \<Rightarrow>
                  (let stored = (case original_light_energies (obj_name ob) of
                                   None \<Rightarrow> energy
                                 | Some e \<Rightarrow> e)
                   in (original_light_energies(obj_name ob \<mapsto> stored),
                       sc\<lparr>objects := (objects sc)(i \<mapsto>
                            ob\<lparr>obj_data := LightData (Some (if turn_on then stored else 0))\<rparr>)\<rparr>))
              | _ \<Rightarrow> st)))"

text \<open>The emission nodes of one node tree, from node index \<open>node_idx\<close> on.\<close>

fun configure_nodes ::
  "bool \<Rightarrow> string \<Rightarrow> nat \<Rightarrow> nat \<Rightarrow> node list \<Rightarrow> (string \<rightharpoonup> socket_value) \<Rightarrow>
     node list \<times> (string \<rightharpoonup> socket_value)" where
  "configure_nodes turn_on name slot_idx node_idx [] original_emission_strengths =
     ([], original_emission_strengths)"
| "configure_nodes turn_on name slot_idx node_idx (n # ns) original_emission_strengths =
     (if node_type n = ''EMISSION'' \<and> length (node_inputs n) > 1
      then
        (let key = emission_key name slot_idx node_idx;
             stored = (case original_emission_strengths key of
                         None \<Rightarrow> node_inputs n ! 1
                       | Some v \<Rightarrow> v);
             n' = n\<lparr>node_inputs := (node_inputs n)[1 := (if turn_on then stored else Scalar 0)]\<rparr>;
             (ns', em) = configure_nodes turn_on name slot_idx (Suc node_idx) ns
                           (original_emission_strengths(key \<mapsto> stored))
         in (n' # ns', em))
      else
        (let (ns', em) = configure_nodes turn_on name slot_idx (Suc node_idx) ns
                           original_emission_strengths
         in (n # ns', em)))"

text \<open>The material slots of one object, from slot index \<open>slot_idx\<close> on.\<close>

fun configure_slots ::
  "bool \<Rightarrow> string \<Rightarrow> nat \<Rightarrow> nat option list \<Rightarrow> (string \<rightharpoonup> socket_value) \<times> (nat \<rightharpoonup> material) \<Rightarrow>
     (string \<rightharpoonup> socket_value) \<times> (nat \<rightharpoonup> material)" where
  "configure_slots turn_on name slot_idx [] st = st"
| "configure_slots turn_on name slot_idx (slot # slots) st =
     (case st of (original_emission_strengths, mats) \<Rightarrow>
        configure_slots turn_on name (Suc slot_idx) slots
          (case slot of
             None \<Rightarrow> st
           | Some mid \<Rightarrow>
               (case mats mid of
                  None \<Rightarrow> st
                | Some mat \<Rightarrow>
                    (if use_nodes mat
                     then (let (ns', em) = configure_nodes turn_on name slot_idx 0 (nodes mat)
                                             original_emission_strengths
                           in (em, mats(mid \<mapsto> mat\<lparr>nodes := ns'\<rparr>)))
                     else st))))"

definition configure_emission ::
  "bool \<Rightarrow> nat \<Rightarrow> (string \<rightharpoonup> socket_value) \<times> scene \<Rightarrow> (string \<rightharpoonup> socket_value) \<times> scene" where
  "configure_emission turn_on i st =
     (case st of (original_emission_strengths, sc) \<Rightarrow>
        (case objects sc i of
           None \<Rightarrow> st
         | Some ob \<Rightarrow>
             (if is_mesh ob \<and> material_slots ob \<noteq> []
              then (let (em, mats) = configure_slots turn_on (obj_name ob) 0 (material_slots ob)
                                       (original_emission_strengths, materials sc)
                    in (em, sc\<lparr>materials := mats\<rparr>))
              else st)))"

text \<open>One pass over \<^verbatim>\<open>collection.all_objects\<close>: the light, then the emissive materials.\<close>

definition configure_object ::
  "bool \<Rightarrow> nat \<Rightarrow> (string \<rightharpoonup> rat) \<times> (string \<rightharpoonup> socket_value) \<times> scene \<Rightarrow>
     (string \<rightharpoonup> rat) \<times> (string \<rightharpoonup> socket_value) \<times> scene" where
  "configure_object turn_on i st =
     (case st of (en, em, sc) \<Rightarrow>
        (let (en1, sc1) = configure_light turn_on i (en, sc);
             (em1, sc2) = configure_emission turn_on i (em, sc1)
         in (en1, em1, sc2)))"

text \<open>
  The light set-up of one bake.  Both dictionaries of stored values are local to the
  call of perform\_bake: they start empty here and are not returned.
\<close>

definition configure_lights :: "string \<Rightarrow> collection \<Rightarrow> collection \<Rightarrow> scene \<Rightarrow> scene" where
  "configure_lights image_name lights_on_collection lights_off_collection sc =
     (let start = (Map.empty, Map.empty, sc);
          on_objects = collect_objects lights_on_collection;
          off_objects = collect_objects lights_off_collection
      in if py_in ''On'' image_name
         then snd (snd (fold (configure_object False) off_objects
                         (fold (configure_object True) on_objects start)))
         else snd (snd (fold (configure_object True) off_objects
                         (fold (configure_object False) on_objects start))))"

text \<open>
  The image node every node material of the bake target gets:
  \<^verbatim>\<open>nodes.new(type='ShaderNodeTexImage')\<close> with \<^verbatim>\<open>image_node.image = bake_image\<close>.
\<close>

definition add_image_node :: "host \<Rightarrow> string \<Rightarrow> nat option \<Rightarrow> scene \<Rightarrow> scene" where
  "add_image_node h image_name slot sc =
     (case slot of
        None \<Rightarrow> sc
      | Some mid \<Rightarrow>
          (case materials sc mid of
             None \<Rightarrow> sc
           | Some mat \<Rightarrow>
               (if use_nodes mat
                then sc\<lparr>materials := (materials sc)(mid \<mapsto>
                       mat\<lparr>nodes := nodes mat @
                         [(h_new_node h (map node_name (nodes mat)) ''ShaderNodeTexImage'')
                            \<lparr>node_image := Some image_name\<rparr>]\<rparr>)\<rparr>
                else sc)))"

text \<open>
  perform\_bake: the lights, the target image, the image nodes on the materials of
  \<^verbatim>\<open>objects[0]\<close> (a material LightmapMaterial is made when it has no slot), the selection.
  The render settings, the world light, the bake itself and the saved file are outside
  the state modelled here.
\<close>

definition perform_bake ::
  "host \<Rightarrow> nat list \<Rightarrow> string \<Rightarrow> collection \<Rightarrow> collection \<Rightarrow> scene \<Rightarrow> py_error + scene" where
  "perform_bake h objs image_name lights_on_collection lights_off_collection sc =
     (let sc1 = configure_lights image_name lights_on_collection lights_off_collection sc;
          sc2 = sc1\<lparr>images := images sc1 @
                  [if image_name \<in> set (images sc1) then h_copy_name h image_name else image_name]\<rparr>
      in (case objs of
            [] \<Rightarrow> Inl IndexError
          | obj # rest \<Rightarrow>
              (case objects sc2 obj of
                 None \<Rightarrow> Inl AttributeError
               | Some ob \<Rightarrow>
                   (if material_slots ob = [] \<and> \<not> is_mesh ob then Inl AttributeError
                    else
                      (let sc3 = (if material_slots ob = []
                                  then sc2\<lparr>materials := (materials sc2)(next_material sc2 \<mapsto>
                                              \<lparr>use_nodes = True, nodes = h_default_nodes h\<rparr>),
                                            next_material := Suc (next_material sc2),
                                            objects := (objects sc2)(obj \<mapsto>
                                              ob\<lparr>material_slots := [Some (next_material sc2)]\<rparr>)\<rparr>
                                  else sc2);
                           slots = (case objects sc3 obj of
                                      None \<Rightarrow> []
                                    | Some ob' \<Rightarrow> material_slots ob');
                           sc4 = fold (add_image_node h image_name) slots sc3
                       in Inr ((select_set True obj (deselect_all sc4))
                                 \<lparr>active_object := Some obj\<rparr>))))))"

subsection \<open>transfer\_lightmap\_uvs\_fast\<close>

text \<open>
  \<^verbatim>\<open>round(x, 5)\<close>: the nearest multiple of \<open>10\<^sup>-\<^sup>5\<close>, a tie going to the even one.
\<close>

definition round_half_even :: "rat \<Rightarrow> int" where
  "round_half_even x =
     (let f = \<lfloor>x\<rfloor>; d = x - of_int f
      in if d < 1/2 then f else if 1/2 < d then f + 1 else if even f then f else f + 1)"

definition py_round5 :: "rat \<Rightarrow> rat" where
  "py_round5 x = of_int (round_half_even (x * 100000)) / 100000"

definition position_key :: "vec3 \<Rightarrow> vec3" where
  "position_key co = (case co of (x, y, z) \<Rightarrow> (py_round5 x, py_round5 y, py_round5 z))"

text \<open>
  The rounded position of the vertex of a loop:
  \<^verbatim>\<open>mesh.vertices[mesh.loops[loop_idx].vertex_index].co\<close>, rounded.  Both reads raise out
  of range.
\<close>

definition loop_key :: "mesh \<Rightarrow> nat \<Rightarrow> py_error + vec3" where
  "loop_key m loop_idx =
     (if loop_idx < length (loops m)
      then (let vert_idx = loops m ! loop_idx
            in if vert_idx < length (vertices m)
               then Inr (position_key (vertices m ! vert_idx))
               else Inl IndexError)
      else Inl IndexError)"

text \<open>
  The lookup table \<^verbatim>\<open>vert_to_uv\<close>, over the loops of the source polygons in order:
  a key that is in the table already keeps its value.
\<close>

fun build_lookup ::
  "mesh \<Rightarrow> uv list \<Rightarrow> nat list \<Rightarrow> (vec3 \<rightharpoonup> uv) \<Rightarrow> py_error + (vec3 \<rightharpoonup> uv)" where
  "build_lookup source_mesh source_uv [] vert_to_uv = Inr vert_to_uv"
| "build_lookup source_mesh source_uv (loop_idx # rest) vert_to_uv =
     (case loop_key source_mesh loop_idx of
        Inl e \<Rightarrow> Inl e
      | Inr key \<Rightarrow>
          (if loop_idx < length source_uv
           then build_lookup source_mesh source_uv rest
                  (if key \<in> dom vert_to_uv then vert_to_uv
                   else vert_to_uv(key \<mapsto> source_uv ! loop_idx))
           else Inl IndexError))"

text \<open>The copy into the target layer, over the loops of the target polygons in order.\<close>

fun copy_uvs :: "(vec3 \<rightharpoonup> uv) \<Rightarrow> mesh \<Rightarrow> nat list \<Rightarrow> uv list \<Rightarrow> py_error + uv list" where
  "copy_uvs vert_to_uv m [] target = Inr target"
| "copy_uvs vert_to_uv m (loop_idx # rest) target =
     (case loop_key m loop_idx of
        Inl e \<Rightarrow> Inl e
      | Inr key \<Rightarrow>
          (case vert_to_uv key of
             None \<Rightarrow> copy_uvs vert_to_uv m rest target
           | Some c \<Rightarrow>
               (if loop_idx < length target
                then copy_uvs vert_to_uv m rest (target[loop_idx := c])
                else Inl IndexError)))"

text \<open>
  One original mesh: the layer LightmapUV is made when it is missing, the table is
  applied to it, and it becomes the render layer.
\<close>

definition with_lightmap_layer :: "host \<Rightarrow> mesh \<Rightarrow> mesh" where
  "with_lightmap_layer h m =
     (if has_layer LIGHTMAP_UV_NAME m then m else uv_layers_new h LIGHTMAP_UV_NAME m)"

definition transfer_to_mesh :: "host \<Rightarrow> (vec3 \<rightharpoonup> uv) \<Rightarrow> mesh \<Rightarrow> py_error + mesh" where
  "transfer_to_mesh h vert_to_uv m =
     (let m1 = with_lightmap_layer h m
      in (case layer_index LIGHTMAP_UV_NAME (uv_layers m1) of
            None \<Rightarrow> Inl IndexError
          | Some t \<Rightarrow>
              (case copy_uvs vert_to_uv m1 (concat (polygons m1)) (uv_data (uv_layers m1 ! t)) of
                 Inl e \<Rightarrow> Inl e
               | Inr target \<Rightarrow>
                   Inr (m1\<lparr>uv_layers :=
                          set_active_render t
                            ((uv_layers m1)[t := (uv_layers m1 ! t)\<lparr>uv_data := target\<rparr>])\<rparr>))))"

text \<open>An entry that is no object, or no mesh object, is skipped.\<close>

definition transfer_to_object :: "host \<Rightarrow> (vec3 \<rightharpoonup> uv) \<Rightarrow> nat \<Rightarrow> scene \<Rightarrow> py_error + scene" where
  "transfer_to_object h vert_to_uv i sc =
     (case objects sc i of
        None \<Rightarrow> Inr sc
      | Some ob \<Rightarrow>
          (case obj_data ob of
             MeshData m \<Rightarrow>
               (case transfer_to_mesh h vert_to_uv m of
                  Inl e \<Rightarrow> Inl e
                | Inr m' \<Rightarrow> Inr (sc\<lparr>objects := (objects sc)(i \<mapsto> ob\<lparr>obj_data := MeshData m'\<rparr>)\<rparr>))
           | _ \<Rightarrow> Inr sc))"

fun transfer_all :: "host \<Rightarrow> (vec3 \<rightharpoonup> uv) \<Rightarrow> nat list \<Rightarrow> scene \<Rightarrow> py_error + scene" where
  "transfer_all h vert_to_uv [] sc = Inr sc"
| "transfer_all h vert_to_uv (i # rest) sc =
     (case transfer_to_object h vert_to_uv i sc of
        Inl e \<Rightarrow> Inl e
      | Inr sc' \<Rightarrow> transfer_all h vert_to_uv rest sc')"

text \<open>
  The lookup table of a source mesh, \<open>None\<close> when it has no layer LightmapUV.
\<close>

definition source_lookup :: "mesh \<Rightarrow> (py_error + (vec3 \<rightharpoonup> uv)) option" where
  "source_lookup source_mesh =
     (case layer_index LIGHTMAP_UV_NAME (uv_layers source_mesh) of
        None \<Rightarrow> None
      | Some s \<Rightarrow>
          Some (build_lookup source_mesh (uv_data (uv_layers source_mesh ! s))
                  (concat (polygons source_mesh)) Map.empty))"

text \<open>
  transfer\_lightmap\_uvs\_fast.  Without a baked object, or without the layer LightmapUV
  on it, the function returns and changes nothing.  Reading \<^verbatim>\<open>uv_layers\<close> of a baked
  object that is no mesh raises.
\<close>

definition transfer_lightmap_uvs_fast ::
  "host \<Rightarrow> nat option \<Rightarrow> nat list \<Rightarrow> scene \<Rightarrow> py_error + scene" where
  "transfer_lightmap_uvs_fast h baked_object original_objects sc =
     (case baked_object of
        None \<Rightarrow> Inr sc
      | Some b \<Rightarrow>
          (case objects sc b of
             None \<Rightarrow> Inr sc
           | Some ob \<Rightarrow>
               (case obj_data ob of
                  MeshData source_mesh \<Rightarrow>
                    (case source_lookup source_mesh of
                       None \<Rightarrow> Inr sc
                     | Some (Inl e) \<Rightarrow> Inl e
                     | Some (Inr vert_to_uv) \<Rightarrow> transfer_all h vert_to_uv original_objects sc)
                | _ \<Rightarrow> Inl AttributeError)))"

subsection \<open>verify\_and\_fix\_uv2\<close>

text \<open>
  The fallback copy \<^verbatim>\<open>uv2.data[loop_idx].uv = uv1.data[loop_idx].uv\<close> over
  \<^verbatim>\<open>enumerate(obj.data.loops)\<close>; a read past the end of the base layer raises.
\<close>

fun copy_base_uvs :: "uv list \<Rightarrow> nat list \<Rightarrow> uv list \<Rightarrow> py_error + uv list" where
  "copy_base_uvs uv1 [] uv2 = Inr uv2"
| "copy_base_uvs uv1 (loop_idx # rest) uv2 =
     (if loop_idx < length uv1 \<and> loop_idx < length uv2
      then copy_base_uvs uv1 rest (uv2[loop_idx := uv1 ! loop_idx])
      else Inl IndexError)"

definition verify_mesh :: "host \<Rightarrow> mesh \<Rightarrow> py_error + mesh" where
  "verify_mesh h m =
     (case layer_index LIGHTMAP_UV_NAME (uv_layers m) of
        None \<Rightarrow>
          (if length (uv_layers m) > 0
           then
             (let uv1 = uv_layers m ! 0;
                  m1 = uv_layers_new h LIGHTMAP_UV_NAME m;
                  uv2 = length (uv_layers m1) - 1;
                  m2 = m1\<lparr>uv_layers := set_active_render uv2 (uv_layers m1)\<rparr>
              in (case copy_base_uvs (uv_data uv1) [0..<length (loops m)]
                          (uv_data (uv_layers m2 ! uv2)) of
                    Inl e \<Rightarrow> Inl e
                  | Inr d \<Rightarrow>
                      Inr (m2\<lparr>uv_layers := (uv_layers m2)[uv2 := (uv_layers m2 ! uv2)\<lparr>uv_data := d\<rparr>]\<rparr>)))
           else Inr m)
      | Some uv2 \<Rightarrow> Inr (m\<lparr>uv_layers := set_active_render uv2 (uv_layers m)\<rparr>))"

text \<open>One pass of the loop; an entry that is no mesh object is skipped.\<close>

definition verify_object :: "host \<Rightarrow> nat \<Rightarrow> scene \<Rightarrow> py_error + scene" where
  "verify_object h i sc =
     (case objects sc i of
        None \<Rightarrow> Inr sc
      | Some ob \<Rightarrow>
          (case obj_data ob of
             MeshData m \<Rightarrow>
               (case verify_mesh h m of
                  Inl e \<Rightarrow> Inl e
                | Inr m' \<Rightarrow> Inr (sc\<lparr>objects := (objects sc)(i \<mapsto> ob\<lparr>obj_data := MeshData m'\<rparr>)\<rparr>))
           | _ \<Rightarrow> Inr sc))"

fun verify_and_fix_uv2 :: "host \<Rightarrow> nat list \<Rightarrow> scene \<Rightarrow> py_error + scene" where
  "verify_and_fix_uv2 h [] sc = Inr sc"
| "verify_and_fix_uv2 h (i # rest) sc =
     (case verify_object h i sc of
        Inl e \<Rightarrow> Inl e
      | Inr sc' \<Rightarrow> verify_and_fix_uv2 h rest sc')"

subsection \<open>clean\_lightmap\_nodes\_from\_materials, export\_mansion\_glb\<close>

definition is_lightmap_image_node :: "node \<Rightarrow> bool" where
  "is_lightmap_image_node n =
     (node_type n = ''ShaderNodeTexImage'' \<and>
      (case node_image n of
         None \<Rightarrow> False
       | Some image_name \<Rightarrow>
           py_in ''Lightmap'' image_name \<or> image_name = ''Mansion_Lightmap_On'' \<or>
           image_name = ''Mansion_Lightmap_Off''))"

text \<open>
  \<^verbatim>\<open>node_tree.nodes.remove(node)\<close>: the node, which its name identifies in the tree, goes,
  and the links that start at it.
\<close>

definition remove_node :: "node \<Rightarrow> node list \<Rightarrow> node list" where
  "remove_node n ns =
     map (\<lambda>k. k\<lparr>node_vector := map_option (filter (\<lambda>from. from \<noteq> node_name n)) (node_vector k)\<rparr>)
       (filter (\<lambda>k. node_name k \<noteq> node_name n) ns)"

definition clean_material :: "material \<Rightarrow> material" where
  "clean_material mat =
     (let nodes_to_remove = filter is_lightmap_image_node (nodes mat)
      in mat\<lparr>nodes := fold remove_node nodes_to_remove (nodes mat)\<rparr>)"

definition clean_slot :: "nat option \<Rightarrow> scene \<Rightarrow> scene" where
  "clean_slot slot sc =
     (case slot of
        None \<Rightarrow> sc
      | Some mid \<Rightarrow>
          (case materials sc mid of
             None \<Rightarrow> sc
           | Some mat \<Rightarrow>
               (if use_nodes mat
                then sc\<lparr>materials := (materials sc)(mid \<mapsto> clean_material mat)\<rparr>
                else sc)))"

definition clean_object :: "nat \<Rightarrow> scene \<Rightarrow> scene" where
  "clean_object i sc =
     (case objects sc i of
        None \<Rightarrow> sc
      | Some ob \<Rightarrow> (if is_mesh ob then fold clean_slot (material_slots ob) sc else sc))"

definition clean_lightmap_nodes_from_materials :: "nat list \<Rightarrow> scene \<Rightarrow> scene" where
  "clean_lightmap_nodes_from_materials objs sc = fold clean_object objs sc"

text \<open>
  export\_mansion\_glb returns whether the export succeeded, and the scene.  The scene it
  returns is the one the exporter is called on: the materials are cleaned and the
  objects of the collection selected just before the call.
\<close>

definition export_mansion_glb :: "host \<Rightarrow> scene \<Rightarrow> bool \<times> scene" where
  "export_mansion_glb h sc =
     (case collections_get MANSION_COLLECTION_NAME sc of
        None \<Rightarrow> (False, sc)
      | Some mansion_collection \<Rightarrow>
          (let all_mansion_objects = collect_objects mansion_collection;
               sc1 = clean_lightmap_nodes_from_materials all_mansion_objects sc;
               sc2 = fold (select_set True) (collect_objects mansion_collection) (deselect_all sc1)
           in (h_export_gltf h sc2, sc2)))"

subsection \<open>fix\_texture\_uv\_assignments\<close>

text \<open>
  One node of a tree, by its index.  For an image texture node: the UV Map nodes linked
  to its Vector input are set to UVMap; with no link, a UV Map node is made and linked;
  and its own \<^verbatim>\<open>uv_map\<close>, when it has one that is neither UVMap nor empty, is set to UVMap.
\<close>

definition fix_node :: "host \<Rightarrow> nat \<Rightarrow> node list \<Rightarrow> node list" where
  "fix_node h k ns =
     (let node = ns ! k
      in if node_type node = ''ShaderNodeTexImage''
         then
           (let ns1 =
                  (case node_vector node of
                     None \<Rightarrow> ns
                   | Some [] \<Rightarrow>
                       (let uvmap_node = (h_new_node h (map node_name ns) ''ShaderNodeUVMap'')
                                           \<lparr>node_uv_map := Some ''UVMap''\<rparr>
                        in ns[k := node\<lparr>node_vector := Some [node_name uvmap_node]\<rparr>] @ [uvmap_node])
                   | Some (l # ls) \<Rightarrow>
                       map (\<lambda>from_node.
                              if node_name from_node \<in> set (l # ls) \<and>
                                 node_type from_node = ''ShaderNodeUVMap'' \<and>
                                 node_uv_map from_node \<noteq> Some ''UVMap''
                              then from_node\<lparr>node_uv_map := Some ''UVMap''\<rparr>
                              else from_node) ns);
                node1 = ns1 ! k
            in (case node_uv_map node1 of
                  None \<Rightarrow> ns1
                | Some u \<Rightarrow>
                    (if u \<noteq> ''UVMap'' \<and> u \<noteq> []
                     then ns1[k := node1\<lparr>node_uv_map := Some ''UVMap''\<rparr>]
                     else ns1)))
         else ns)"

text \<open>The nodes the tree has when the loop starts are visited; new nodes go to the end.\<close>

definition fix_slot :: "host \<Rightarrow> nat option \<Rightarrow> scene \<Rightarrow> scene" where
  "fix_slot h slot sc =
     (case slot of
        None \<Rightarrow> sc
      | Some mid \<Rightarrow>
          (case materials sc mid of
             None \<Rightarrow> sc
           | Some mat \<Rightarrow>
               (if use_nodes mat
                then sc\<lparr>materials := (materials sc)(mid \<mapsto>
                       mat\<lparr>nodes := fold (fix_node h) [0..<length (nodes mat)] (nodes mat)\<rparr>)\<rparr>
                else sc)))"

definition fix_texture_uv_assignments :: "host \<Rightarrow> nat list \<Rightarrow> scene \<Rightarrow> scene" where
  "fix_texture_uv_assignments h objs sc =
     fold (\<lambda>i s. case objects s i of
                    None \<Rightarrow> s
                  | Some ob \<Rightarrow> (if is_mesh ob then fold (fix_slot h) (material_slots ob) s else s))
       objs sc"

subsection \<open>main\<close>



definition hide_object :: "nat \<Rightarrow> scene \<Rightarrow> scene" where
  "hide_object i sc = update_object i (\<lambda>ob. ob\<lparr>hide_viewport := True, hide_render := True\<rparr>) sc"

text \<open>The two bakes of main, one after the other.\<close>

definition two_bakes :: "host \<Rightarrow> nat list \<Rightarrow> collection \<Rightarrow> collection \<Rightarrow> scene \<Rightarrow> py_error + scene" where
  "two_bakes h joined_mansion lights_on lights_off sc =
     (case perform_bake h joined_mansion ''Mansion_Lightmap_On'' lights_on lights_off sc of
        Inl e \<Rightarrow> Inl e
      | Inr sc1 \<Rightarrow>
          perform_bake h joined_mansion ''Mansion_Lightmap_Off'' lights_on lights_off sc1)"



subsection \<open>Notions the properties are stated with\<close>


text \<open>The rounded position of the vertex of a loop of a well-formed mesh.\<close>

definition loop_position_key :: "mesh \<Rightarrow> nat \<Rightarrow> vec3" where
  "loop_position_key m loop_idx = position_key (vertices m ! (loops m ! loop_idx))"

text \<open>
  The specification's lookup table: a rounded position is mapped to the coordinate of
  the first loop, in polygon order, whose vertex has that rounded position.
\<close>

definition first_seen_uv :: "mesh \<Rightarrow> uv list \<Rightarrow> (vec3 \<rightharpoonup> uv)" where
  "first_seen_uv m uvs =
     map_of (map (\<lambda>loop_idx. (loop_position_key m loop_idx, uvs ! loop_idx)) (concat (polygons m)))"

text \<open>The coordinates of the layer LightmapUV of a mesh, and whether it is the render layer.\<close>

definition lightmap_uvs :: "mesh \<Rightarrow> uv list option" where
  "lightmap_uvs m =
     map_option (\<lambda>i. uv_data (uv_layers m ! i)) (layer_index LIGHTMAP_UV_NAME (uv_layers m))"

definition lightmap_is_render_layer :: "mesh \<Rightarrow> bool" where
  "lightmap_is_render_layer m =
     (case layer_index LIGHTMAP_UV_NAME (uv_layers m) of
        None \<Rightarrow> False
      | Some i \<Rightarrow> active_render (uv_layers m ! i))"


text \<open>The names of the UV layers of the mesh of an object, in order.\<close>

definition layer_names :: "scene \<Rightarrow> nat \<Rightarrow> string list option" where
  "layer_names sc i = map_option (\<lambda>m. map layer_name (uv_layers m)) (mesh_of sc i)"

subsection \<open>Concrete scenes\<close>

text \<open>
  A scene with one lamp of energy 100 in Lights\_OFF, nothing in Lights\_ON, and one
  mesh object in the Mansion collection, which is the bake target.
\<close>

definition empty_mesh :: mesh where
  "empty_mesh = \<lparr>vertices = [], loops = [], polygons = [], uv_layers = []\<rparr>"

definition lamp_object :: object where
  "lamp_object =
     \<lparr>obj_name = ''Lamp'', obj_data = LightData (Some 100), material_slots = [],
      modifiers = [], selected = False, hide_viewport = False, hide_render = False\<rparr>"

definition wall_object :: object where
  "wall_object =
     \<lparr>obj_name = ''Wall'', obj_data = MeshData empty_mesh, material_slots = [],
      modifiers = [], selected = False, hide_viewport = False, hide_render = False\<rparr>"

definition lamp_lights_on :: collection where
  "lamp_lights_on = Collection ''Lights_ON'' [] []"

definition lamp_lights_off :: collection where
  "lamp_lights_off = Collection ''Lights_OFF'' [0] []"

definition lamp_scene :: scene where
  "lamp_scene =
     \<lparr>objects = [0 \<mapsto> lamp_object, 1 \<mapsto> wall_object], next_object = 2,
      materials = Map.empty, next_material = 0,
      scene_collection =
        Collection ''Scene Collection'' []
          [Collection ''Mansion'' [1] [], lamp_lights_on, lamp_lights_off],
      active_object = None, images = []\<rparr>"

text \<open>The energy of the light object \<open>i\<close>.\<close>

definition light_energy :: "scene \<Rightarrow> nat \<Rightarrow> rat option" where
  "light_energy sc i =
     (case objects sc i of
        None \<Rightarrow> None
      | Some ob \<Rightarrow> (case obj_data ob of LightData e \<Rightarrow> e | _ \<Rightarrow> None))"

text \<open>
  A host to run the stages on.  Its join concatenates the geometry and the UV layers
  of the active mesh with those of the others and leaves an extra layer \<^verbatim>\<open>map1\<close>
  behind; its UV operators put every loop at fixed coordinates.
\<close>

definition merge_mesh :: "mesh \<Rightarrow> mesh \<Rightarrow> mesh" where
  "merge_mesh a b =
     \<lparr>vertices = vertices a @ vertices b,
      loops = loops a @ map (\<lambda>v. v + length (vertices a)) (loops b),
      polygons = polygons a @ map (map (\<lambda>l. l + length (loops a))) (polygons b),
      uv_layers =
        map (\<lambda>l. l\<lparr>uv_data := uv_data l @
                     (case layer_index (layer_name l) (uv_layers b) of
                        None \<Rightarrow> replicate (length (loops b)) (0, 0)
                      | Some i \<Rightarrow> uv_data (uv_layers b ! i))\<rparr>)
          (uv_layers a)\<rparr>"

definition join_meshes :: "object \<Rightarrow> object list \<Rightarrow> object" where
  "join_meshes ob others =
     update_mesh
       (\<lambda>m. (let j = fold (\<lambda>other acc. case obj_data other of MeshData b \<Rightarrow> merge_mesh acc b | _ \<Rightarrow> acc)
                        others m
             in j\<lparr>uv_layers := uv_layers j @
                    [\<lparr>layer_name = ''map1'', uv_data = replicate (length (loops j)) (0, 0),
                      active = False, active_render = False\<rparr>]\<rparr>))
       ob"

definition plain_node :: "string list \<Rightarrow> string \<Rightarrow> node" where
  "plain_node names idname =
     \<lparr>node_name = idname @ ''.'' @ string_of_nat (length names), node_type = idname,
      node_image = None, node_inputs = [], node_vector = Some [], node_uv_map = None\<rparr>"

definition simple_host :: host where
  "simple_host =
     \<lparr>h_uv_init = (\<lambda>m i. (0, 0)),
      h_modifier_apply = (\<lambda>md ob. Some (ob\<lparr>modifiers := filter (\<lambda>k. k \<noteq> md) (modifiers ob)\<rparr>)),
      h_join = join_meshes,
      h_remove_doubles = (\<lambda>m. m),
      h_normals_make_consistent = (\<lambda>m. m),
      h_quads_convert_to_tris = (\<lambda>m. m),
      h_copy_name = (\<lambda>n. n @ ''.001''),
      h_smart_project = (\<lambda>sc. Some (\<lambda>m i. (1/4, 1/4))),
      h_pack_islands = (\<lambda>sc. Some (\<lambda>m i. (1/2, 1/2))),
      h_unwrap = (\<lambda>sc. None),
      h_new_node = plain_node,
      h_default_nodes = [],
      h_export_layout = (\<lambda>sc. False),
      h_export_gltf = (\<lambda>sc. True)\<rparr>"

text \<open>
  A scene with two triangles in the Mansion collection, each with a base layer UVMap;
  the first also has a stray layer.
\<close>

definition base_layer :: uv_layer where
  "base_layer =
     \<lparr>layer_name = ''UVMap'', uv_data = [(0, 0), (1, 0), (0, 1)],
      active = True, active_render = True\<rparr>"

definition stray_layer :: uv_layer where
  "stray_layer =
     \<lparr>layer_name = ''Detail'', uv_data = [(1, 1), (1, 1), (1, 1)],
      active = False, active_render = False\<rparr>"

definition wall_mesh :: mesh where
  "wall_mesh =
     \<lparr>vertices = [(0, 0, 0), (1, 0, 0), (0, 1, 0)], loops = [0, 1, 2], polygons = [[0, 1, 2]],
      uv_layers = [base_layer, stray_layer]\<rparr>"

definition floor_mesh :: mesh where
  "floor_mesh =
     \<lparr>vertices = [(0, 0, 0), (1, 0, 0), (0, 0, 1)], loops = [0, 1, 2], polygons = [[0, 1, 2]],
      uv_layers = [base_layer]\<rparr>"

definition mesh_object :: "string \<Rightarrow> mesh \<Rightarrow> object" where
  "mesh_object nm m =
     \<lparr>obj_name = nm, obj_data = MeshData m, material_slots = [Some 0],
      modifiers = [], selected = False, hide_viewport = False, hide_render = False\<rparr>"

definition house_scene :: scene where
  "house_scene =
     \<lparr>objects = [0 \<mapsto> mesh_object ''Wall'' wall_mesh, 1 \<mapsto> mesh_object ''Floor'' floor_mesh,
                 2 \<mapsto> lamp_object],
      next_object = 3,
      materials = [0 \<mapsto> \<lparr>use_nodes = True, nodes = []\<rparr>], next_material = 1,
      scene_collection =
        Collection ''Scene Collection'' []
          [Collection ''Mansion'' [0, 1] [],
           Collection ''Lights_ON'' [2] [], Collection ''Lights_OFF'' [] []],
      active_object = None, images = []\<rparr>"

text \<open>
  A scene after the bake: the baker object holds the two triangles with an unwrapped
  layer LightmapUV; the originals are the wall, the floor (they share two vertex
  positions), a shelf that lies elsewhere and has a layer LightmapUV already, and a
  vase that lies elsewhere and has none.
\<close>

definition baker_mesh :: mesh where
  "baker_mesh =
     \<lparr>vertices = [(0, 0, 0), (1, 0, 0), (0, 1, 0), (0, 0, 0), (1, 0, 0), (0, 0, 1)],
      loops = [0, 1, 2, 3, 4, 5], polygons = [[0, 1, 2], [3, 4, 5]],
      uv_layers =
        [\<lparr>layer_name = ''UVMap'', uv_data = [(0, 0), (1, 0), (0, 1), (0, 0), (1, 0), (0, 1)],
          active = False, active_render = False\<rparr>,
         \<lparr>layer_name = ''LightmapUV'',
          uv_data = [(1/10, 1/10), (2/10, 1/10), (1/10, 2/10), (6/10, 6/10), (7/10, 6/10), (6/10, 7/10)],
          active = True, active_render = True\<rparr>]\<rparr>"

definition shelf_mesh :: mesh where
  "shelf_mesh =
     \<lparr>vertices = [(5, 5, 5), (6, 5, 5), (5, 6, 5)], loops = [0, 1, 2], polygons = [[0, 1, 2]],
      uv_layers =
        [base_layer,
         \<lparr>layer_name = ''LightmapUV'', uv_data = [(9/10, 9/10), (9/10, 8/10), (8/10, 9/10)],
          active = False, active_render = False\<rparr>]\<rparr>"

definition vase_mesh :: mesh where
  "vase_mesh =
     \<lparr>vertices = [(7, 7, 7), (8, 7, 7), (7, 8, 7)], loops = [0, 1, 2], polygons = [[0, 1, 2]],
      uv_layers = [base_layer]\<rparr>"

definition baked_scene :: scene where
  "baked_scene =
     \<lparr>objects = [0 \<mapsto> mesh_object ''Wall'' wall_mesh, 1 \<mapsto> mesh_object ''Floor'' floor_mesh,
                 2 \<mapsto> lamp_object, 3 \<mapsto> mesh_object ''Mansion_Lightmap_Baker'' baker_mesh,
                 4 \<mapsto> mesh_object ''Shelf'' shelf_mesh, 5 \<mapsto> mesh_object ''Vase'' vase_mesh],
      next_object = 6,
      materials = [0 \<mapsto> \<lparr>use_nodes = True, nodes = []\<rparr>], next_material = 1,
      scene_collection =
        Collection ''Scene Collection'' []
          [Collection ''Mansion'' [0, 1, 4, 5] [],
           Collection ''Lights_ON'' [2] [], Collection ''Lights_OFF'' [] [],
           Collection ''Lightmap_Baker'' [3] []],
      active_object = None, images = []\<rparr>"

text \<open>
  Two scenes for the export.  In the first the shared material of the originals holds
  the two image nodes the bakes have added and a texture node of its own.  In the
  second the material of the wall does not use nodes, and its tree holds an image node
  of an earlier bake.
\<close>

definition image_node :: "string \<Rightarrow> string \<Rightarrow> node" where
  "image_node nm image_name =
     \<lparr>node_name = nm, node_type = ''ShaderNodeTexImage'', node_image = Some image_name,
      node_inputs = [], node_vector = Some [], node_uv_map = None\<rparr>"

definition painted_scene :: scene where
  "painted_scene =
     baked_scene\<lparr>materials :=
       [0 \<mapsto> \<lparr>use_nodes = True,
                nodes = [image_node ''Image Texture'' ''Bricks'',
                         image_node ''Image Texture.001'' ''Mansion_Lightmap_On'',
                         image_node ''Image Texture.002'' ''Mansion_Lightmap_Off'']\<rparr>]\<rparr>"

definition stale_scene :: scene where
  "stale_scene =
     baked_scene\<lparr>materials :=
       [0 \<mapsto> \<lparr>use_nodes = False,
                nodes = [image_node ''Image Texture'' ''Mansion_Lightmap_On'']\<rparr>]\<rparr>"


section \<open>Properties\<close>



subsection \<open>C1: light energies across the two bakes\<close>

text \<open>
  C1.  The claim: a light's energy is stored before it is first changed, and a light
  that is to be on for the second bake gets its original value back.
  perform\_bake keeps the stored values in dictionaries of its own, so the second bake
  starts with none: the lamp of Lights\_OFF, of energy 100, is set to 0 by the first
  bake (lights on), and the second bake (lights off), which should switch it on with
  100, stores the 0 it finds and sets the lamp to 0.
\<close>

theorem second_bake_restores_zero:
  "light_energy lamp_scene 0 = Some 100 \<and>
   (\<exists>sc'. two_bakes h [1] lamp_lights_on lamp_lights_off lamp_scene = Inr sc' \<and>
          light_energy sc' 0 = Some 0)"
  by (simp add: two_bakes_def perform_bake_def configure_lights_def configure_object_def
      configure_light_def configure_emission_def lamp_scene_def lamp_lights_on_def
      lamp_lights_off_def lamp_object_def wall_object_def is_mesh_def add_image_node_def
      select_set_def deselect_all_def update_object_def light_energy_def Let_def)

subsection \<open>C4: the unwrap quality reports\<close>













subsection \<open>C5: join\_objects on a single object\<close>

text \<open>
  C5.  Called on exactly one object, join\_objects duplicates nothing and joins nothing:
  it returns that object as the merged list and as the original list, and the scene
  (object count, geometry, UV data) is the one it was given.
\<close>

theorem join_single_object_noop:
  "join_objects h [obj] sc = Inr ([obj], [obj], sc)"
  by (simp add: join_objects_def)

subsection \<open>Reading a mesh out of the scene\<close>

lemma mesh_of_deselect_all [simp]: "mesh_of (deselect_all sc) i = mesh_of sc i"
  by (simp add: mesh_of_def deselect_all_def split: option.splits)

lemma mesh_of_select_set [simp]: "mesh_of (select_set v j sc) i = mesh_of sc i"
  by (simp add: mesh_of_def select_set_def update_object_def split: option.splits)

lemma mesh_of_fold_select_set [simp]: "mesh_of (fold (select_set v) js sc) i = mesh_of sc i"
  by (induction js arbitrary: sc) simp_all

lemma mesh_of_active_object [simp]: "mesh_of (sc\<lparr>active_object := a\<rparr>) i = mesh_of sc i"
  by (simp add: mesh_of_def)




lemma mesh_of_move_to_baker [simp]: "mesh_of (move_to_baker j sc) i = mesh_of sc i"
  by (simp add: mesh_of_def move_to_baker_def Let_def)

subsection \<open>Layers by name\<close>

lemma layer_index_Some:
  "layer_index nm ls = Some i \<Longrightarrow>
     i < length ls \<and> layer_name (ls ! i) = nm \<and> nm \<notin> layer_name ` set (take i ls)"
proof (induction ls arbitrary: i)
  case Nil
  then show ?case by simp
next
  case (Cons l ls)
  show ?case
  proof (cases "layer_name l = nm")
    case True
    with Cons.prems show ?thesis by simp
  next
    case False
    with Cons.prems obtain j where j: "layer_index nm ls = Some j" "i = Suc j" by auto
    from Cons.IH [OF j(1)] False j(2) show ?thesis by simp
  qed
qed

lemma layer_index_None: "layer_index nm ls = None \<longleftrightarrow> nm \<notin> layer_name ` set ls"
  by (induction ls) auto

lemma map_snd_enumerate_fun: "map (\<lambda>x. f (snd x)) (enumerate n ls) = map f ls"
  by (induction ls arbitrary: n) simp_all

lemma names_set_active_render [simp]:
  "map layer_name (set_active_render i ls) = map layer_name ls"
  using map_snd_enumerate_fun [of layer_name 0 ls]
  by (simp add: set_active_render_def comp_def case_prod_unfold)

lemma names_set_active [simp]: "map layer_name (set_active i ls) = map layer_name ls"
  using map_snd_enumerate_fun [of layer_name 0 ls]
  by (simp add: set_active_def comp_def case_prod_unfold)

subsection \<open>The UV layers after join\_objects and setup\_uvs\<close>












lemmas scene_defs = house_scene_def mesh_object_def wall_mesh_def floor_mesh_def base_layer_def
  stray_layer_def lamp_object_def simple_host_def join_meshes_def merge_mesh_def plain_node_def




subsection \<open>The UV transfer: lookup table and copy\<close>


lemma loop_key_Inr:
  "loop_key m li = Inr k \<longleftrightarrow>
     li < length (loops m) \<and> loops m ! li < length (vertices m) \<and> k = loop_position_key m li"
  by (auto simp: loop_key_def loop_position_key_def Let_def)


lemma build_lookup_Inr:
  "build_lookup m src lis T0 = Inr T \<Longrightarrow>
     T = map_of (map (\<lambda>li. (loop_position_key m li, src ! li)) lis) ++ T0"
proof (induction lis arbitrary: T0)
  case Nil
  then show ?case by simp
next
  case (Cons li lis)
  from Cons.prems have k: "loop_key m li = Inr (loop_position_key m li)" and s: "li < length src"
    by (auto simp: loop_key_Inr split: sum.splits if_splits)
  let ?k = "loop_position_key m li"
  let ?T1 = "if ?k \<in> dom T0 then T0 else T0(?k \<mapsto> src ! li)"
  from Cons.prems k s have "build_lookup m src lis ?T1 = Inr T" by simp
  from Cons.IH [OF this] have T: "T = map_of (map (\<lambda>li. (loop_position_key m li, src ! li)) lis) ++ ?T1" .
  show ?case
  proof (rule ext)
    fix x
    show "T x = (map_of (map (\<lambda>li. (loop_position_key m li, src ! li)) (li # lis)) ++ T0) x"
      unfolding T by (auto simp: map_add_def split: option.splits)
  qed
qed

lemma build_lookup_total:
  "(\<forall>li\<in>set lis. loop_key m li = Inr (loop_position_key m li) \<and> li < length src) \<Longrightarrow>
     \<exists>T. build_lookup m src lis T0 = Inr T"
  by (induction lis arbitrary: T0) auto

lemma copy_uvs_Inr:
  "copy_uvs T m lis d = Inr d' \<Longrightarrow>
     length d' = length d \<and>
     (\<forall>j<length d. d' ! j =
        (case (if j \<in> set lis then T (loop_position_key m j) else None) of
           None \<Rightarrow> d ! j | Some c \<Rightarrow> c)) \<and>
     (\<forall>li\<in>set lis. loop_key m li = Inr (loop_position_key m li) \<and>
        (T (loop_position_key m li) \<noteq> None \<longrightarrow> li < length d))"
proof (induction lis arbitrary: d)
  case Nil
  then show ?case by simp
next
  case (Cons li lis)
  from Cons.prems have k: "loop_key m li = Inr (loop_position_key m li)"
    by (auto simp: loop_key_Inr split: sum.splits)
  show ?case
  proof (cases "T (loop_position_key m li)")
    case None
    with Cons.prems k have "copy_uvs T m lis d = Inr d'" by simp
    from Cons.IH [OF this] None k show ?thesis by (auto split: option.splits)
  next
    case (Some c)
    with Cons.prems k have li: "li < length d" and r: "copy_uvs T m lis (d[li := c]) = Inr d'"
      by (auto split: if_splits)
    from Cons.IH [OF r] Some k li show ?thesis
      by (auto simp: nth_list_update split: option.splits if_splits)
  qed
qed

lemma copy_uvs_fixpoint:
  "(\<forall>li\<in>set lis. loop_key m li = Inr (loop_position_key m li) \<and>
       (\<forall>c. T (loop_position_key m li) = Some c \<longrightarrow> li < length d \<and> d ! li = c)) \<Longrightarrow>
   copy_uvs T m lis d = Inr d"
proof (induction lis)
  case Nil
  then show ?case by simp
next
  case (Cons li lis)
  from Cons.prems have k: "loop_key m li = Inr (loop_position_key m li)" by simp
  from Cons have r: "copy_uvs T m lis d = Inr d" by simp
  show ?case
  proof (cases "T (loop_position_key m li)")
    case None
    with k r show ?thesis by simp
  next
    case (Some c)
    with Cons.prems have "li < length d" "d ! li = c" by (meson list.set_intros(1))+
    then have "d[li := c] = d" by (simp add: list_update_same_conv)
    with Some k r \<open>li < length d\<close> show ?thesis by simp
  qed
qed



lemma layer_index_append_new:
  "nm \<notin> layer_name ` set ls \<Longrightarrow> layer_name l = nm \<Longrightarrow> layer_index nm (ls @ [l]) = Some (length ls)"
  by (induction ls) auto

lemma layer_index_cong:
  "map layer_name ls = map layer_name ls' \<Longrightarrow> layer_index nm ls = layer_index nm ls'"
proof (induction ls arbitrary: ls')
  case Nil
  then show ?case by simp
next
  case (Cons l ls)
  then obtain l' ls'' where "ls' = l' # ls''" by (cases ls') auto
  with Cons show ?case by auto
qed

lemma set_active_render_nth:
  "i < length ls \<Longrightarrow> set_active_render t ls ! i = (ls ! i)\<lparr>active_render := (i = t)\<rparr>"
  by (simp add: set_active_render_def nth_enumerate_eq)

lemma length_set_active_render [simp]: "length (set_active_render t ls) = length ls"
  by (simp add: set_active_render_def)

lemma set_active_render_idem:
  "set_active_render t (set_active_render t ls) = set_active_render t ls"
  by (rule nth_equalityI) (simp_all add: set_active_render_nth)

lemma set_active_render_data:
  "map uv_data (set_active_render t ls) = map uv_data ls"
  by (rule nth_equalityI) (simp_all add: set_active_render_nth)


lemma with_lightmap_layer_geometry [simp]:
  "vertices (with_lightmap_layer h m) = vertices m"
  "loops (with_lightmap_layer h m) = loops m"
  "polygons (with_lightmap_layer h m) = polygons m"
  by (simp_all add: with_lightmap_layer_def uv_layers_new_def)

lemma loop_key_geometry:
  "vertices m' = vertices m \<Longrightarrow> loops m' = loops m \<Longrightarrow> loop_key m' = loop_key m"
  by (rule ext) (simp add: loop_key_def Let_def)

lemma loop_position_key_geometry:
  "vertices m' = vertices m \<Longrightarrow> loops m' = loops m \<Longrightarrow> loop_position_key m' = loop_position_key m"
  by (rule ext) (simp add: loop_position_key_def)

lemma transfer_to_mesh_Inr:
  assumes "transfer_to_mesh h T m = Inr m'"
  shows "\<exists>t d'. layer_index LIGHTMAP_UV_NAME (uv_layers (with_lightmap_layer h m)) = Some t \<and>
           copy_uvs T (with_lightmap_layer h m) (concat (polygons m))
             (uv_data (uv_layers (with_lightmap_layer h m) ! t)) = Inr d' \<and>
           m' = (with_lightmap_layer h m)\<lparr>uv_layers :=
                  set_active_render t ((uv_layers (with_lightmap_layer h m))
                    [t := (uv_layers (with_lightmap_layer h m) ! t)\<lparr>uv_data := d'\<rparr>])\<rparr>"
  using assms
  unfolding transfer_to_mesh_def Let_def
  by (auto split: option.splits sum.splits)

lemma transfer_to_mesh_facts:
  assumes "transfer_to_mesh h T m = Inr m'"
  shows "vertices m' = vertices m" "loops m' = loops m" "polygons m' = polygons m"
    and "map layer_name (uv_layers m') = map layer_name (uv_layers (with_lightmap_layer h m))"
    and "has_layer LIGHTMAP_UV_NAME m'"
    and "lightmap_is_render_layer m'"
proof -
  let ?m1 = "with_lightmap_layer h m"
  from transfer_to_mesh_Inr [OF assms] obtain t d' where
    t: "layer_index LIGHTMAP_UV_NAME (uv_layers ?m1) = Some t"
    and m': "m' = ?m1\<lparr>uv_layers := set_active_render t ((uv_layers ?m1)[t := (uv_layers ?m1 ! t)\<lparr>uv_data := d'\<rparr>])\<rparr>"
    by blast
  from layer_index_Some [OF t] have tl: "t < length (uv_layers ?m1)" "layer_name (uv_layers ?m1 ! t) = LIGHTMAP_UV_NAME"
    by auto
  show "vertices m' = vertices m" "loops m' = loops m" "polygons m' = polygons m"
    unfolding m' by simp_all
  have "map layer_name ((uv_layers ?m1)[t := (uv_layers ?m1 ! t)\<lparr>uv_data := d'\<rparr>]) = map layer_name (uv_layers ?m1)"
    by (simp add: map_update list_update_same_conv tl)
  then show names: "map layer_name (uv_layers m') = map layer_name (uv_layers ?m1)"
    unfolding m' by simp
  from layer_index_cong [OF names] t have t': "layer_index LIGHTMAP_UV_NAME (uv_layers m') = Some t"
    by simp
  then show "has_layer LIGHTMAP_UV_NAME m'"
    using layer_index_None [of LIGHTMAP_UV_NAME "uv_layers m'"] by (auto simp: has_layer_def)
  show "lightmap_is_render_layer m'"
    unfolding lightmap_is_render_layer_def t' using tl(1)
    by (simp add: m' set_active_render_nth)
qed



lemma copy_uvs_geometry:
  assumes "vertices m' = vertices m" "loops m' = loops m"
  shows "copy_uvs T m' lis d = copy_uvs T m lis d"
proof (induction lis arbitrary: d)
  case Nil
  then show ?case by simp
next
  case (Cons li lis)
  have "loop_key m' li = loop_key m li"
    using loop_key_geometry [OF assms] by simp
  with Cons show ?case
    by (simp split: sum.splits option.splits)
qed

lemma transfer_to_mesh_idem:
  assumes "transfer_to_mesh h T m = Inr m'"
  shows "transfer_to_mesh h T m' = Inr m'"
proof -
  let ?m1 = "with_lightmap_layer h m"
  from transfer_to_mesh_Inr [OF assms] obtain t d' where
    t: "layer_index LIGHTMAP_UV_NAME (uv_layers ?m1) = Some t"
    and c: "copy_uvs T ?m1 (concat (polygons m)) (uv_data (uv_layers ?m1 ! t)) = Inr d'"
    and m': "m' = ?m1\<lparr>uv_layers := set_active_render t ((uv_layers ?m1)[t := (uv_layers ?m1 ! t)\<lparr>uv_data := d'\<rparr>])\<rparr>"
    by blast
  note f = transfer_to_mesh_facts [OF assms]
  from layer_index_Some [OF t] have tl: "t < length (uv_layers ?m1)" by auto
  have w: "with_lightmap_layer h m' = m'"
    using f(5) by (simp add: with_lightmap_layer_def)
  from layer_index_cong [OF f(4)] t have t': "layer_index LIGHTMAP_UV_NAME (uv_layers m') = Some t"
    by simp
  have data: "uv_data (uv_layers m' ! t) = d'"
    unfolding m' using tl by (simp add: set_active_render_nth)
  have keys: "loop_key m' = loop_key ?m1" "loop_position_key m' = loop_position_key ?m1"
    using f(1,2) by (auto intro: loop_key_geometry loop_position_key_geometry)
  have "loop_key ?m1 li = Inr (loop_position_key ?m1 li) \<and>
       (\<forall>c. T (loop_position_key ?m1 li) = Some c \<longrightarrow> li < length d' \<and> d' ! li = c)"
    if li: "li \<in> set (concat (polygons m))" for li
  proof -
    from copy_uvs_Inr [OF c] li have
      k: "loop_key ?m1 li = Inr (loop_position_key ?m1 li)"
      and l: "T (loop_position_key ?m1 li) \<noteq> None \<longrightarrow> li < length (uv_data (uv_layers ?m1 ! t))"
      and len: "length d' = length (uv_data (uv_layers ?m1 ! t))"
      and v: "\<forall>j<length (uv_data (uv_layers ?m1 ! t)). d' ! j =
        (case (if j \<in> set (concat (polygons m)) then T (loop_position_key ?m1 j) else None) of
           None \<Rightarrow> uv_data (uv_layers ?m1 ! t) ! j | Some c \<Rightarrow> c)"
      by blast+
    show ?thesis
    proof (intro conjI allI impI)
      show "loop_key ?m1 li = Inr (loop_position_key ?m1 li)" by (rule k)
    next
      fix c assume s: "T (loop_position_key ?m1 li) = Some c"
      with l have "li < length (uv_data (uv_layers ?m1 ! t))" by simp
      then show "li < length d'" using len by simp
    next
      fix c assume s: "T (loop_position_key ?m1 li) = Some c"
      with l have lt: "li < length (uv_data (uv_layers ?m1 ! t))" by simp
      from v [rule_format, OF lt] li s show "d' ! li = c" by simp
    qed
  qed
  then have
    "\<forall>li\<in>set (concat (polygons m)). loop_key ?m1 li = Inr (loop_position_key ?m1 li) \<and>
       (\<forall>c. T (loop_position_key ?m1 li) = Some c \<longrightarrow> li < length d' \<and> d' ! li = c)"
    by blast
  then have "copy_uvs T ?m1 (concat (polygons m)) d' = Inr d'"
    by (rule copy_uvs_fixpoint)
  then have fp: "copy_uvs T m' (concat (polygons m')) d' = Inr d'"
    using copy_uvs_geometry [of m' ?m1 T] f(1,2,3) by simp
  have same: "(uv_layers m' ! t)\<lparr>uv_data := d'\<rparr> = uv_layers m' ! t"
    unfolding data [symmetric] by simp
  have flags: "set_active_render t (uv_layers m') = uv_layers m'"
    unfolding m' by (simp add: set_active_render_idem)
  have "transfer_to_mesh h T m' =
      (case copy_uvs T m' (concat (polygons m')) d' of
         Inl e \<Rightarrow> Inl e
       | Inr target \<Rightarrow>
           Inr (m'\<lparr>uv_layers :=
                  set_active_render t ((uv_layers m')[t := (uv_layers m' ! t)\<lparr>uv_data := target\<rparr>])\<rparr>))"
    using f(5) by (simp add: transfer_to_mesh_def with_lightmap_layer_def t' data Let_def)
  also have "\<dots> = Inr (m'\<lparr>uv_layers := uv_layers m'\<rparr>)"
    by (simp add: fp same flags)
  finally show ?thesis by simp
qed


lemma transfer_to_object_Inr:
  assumes "transfer_to_object h T i sc = Inr sc'"
  shows "(mesh_of sc i = None \<and> sc' = sc) \<or>
         (\<exists>ob m m'. objects sc i = Some ob \<and> obj_data ob = MeshData m \<and>
            transfer_to_mesh h T m = Inr m' \<and>
            sc' = sc\<lparr>objects := (objects sc)(i \<mapsto> ob\<lparr>obj_data := MeshData m'\<rparr>)\<rparr>)"
  using assms
  by (auto simp: transfer_to_object_def mesh_of_def split: option.splits obj_data.splits sum.splits)

lemma transfer_to_object_other:
  assumes "transfer_to_object h T i sc = Inr sc'" "j \<noteq> i"
  shows "objects sc' j = objects sc j"
  using transfer_to_object_Inr [OF assms(1)] assms(2) by auto

lemma transfer_to_object_self:
  assumes "transfer_to_object h T i sc = Inr sc'" "mesh_of sc i = Some m"
  shows "\<exists>m'. transfer_to_mesh h T m = Inr m' \<and> mesh_of sc' i = Some m'"
  using transfer_to_object_Inr [OF assms(1)] assms(2)
  by (auto simp: mesh_of_def split: option.splits obj_data.splits)

lemma transfer_to_object_no_mesh:
  assumes "transfer_to_object h T i sc = Inr sc'" "mesh_of sc j = None"
  shows "objects sc' j = objects sc j"
  using transfer_to_object_Inr [OF assms(1)] assms(2)
  by (auto simp: mesh_of_def split: option.splits obj_data.splits)

lemma mesh_of_cong: "objects sc' j = objects sc j \<Longrightarrow> mesh_of sc' j = mesh_of sc j"
  by (simp add: mesh_of_def)

lemma transfer_all_result:
  assumes "transfer_all h T objs sc = Inr sc'"
  shows "(j \<notin> set objs \<or> mesh_of sc j = None \<longrightarrow> objects sc' j = objects sc j) \<and>
         (j \<in> set objs \<longrightarrow> (\<forall>m. mesh_of sc j = Some m \<longrightarrow>
            (\<exists>m'. transfer_to_mesh h T m = Inr m' \<and> mesh_of sc' j = Some m')))"
  using assms
proof (induction objs arbitrary: sc)
  case Nil
  then show ?case by simp
next
  case (Cons i objs)
  from Cons.prems obtain sc1 where
    s1: "transfer_to_object h T i sc = Inr sc1" and r: "transfer_all h T objs sc1 = Inr sc'"
    by (auto split: sum.splits)
  note IH = Cons.IH [OF r]
  show ?case
  proof (intro conjI impI allI)
    assume a: "j \<notin> set (i # objs) \<or> mesh_of sc j = None"
    have 1: "objects sc1 j = objects sc j"
      using a transfer_to_object_other [OF s1, of j] transfer_to_object_no_mesh [OF s1, of j] by auto
    then have "j \<notin> set objs \<or> mesh_of sc1 j = None"
      using a mesh_of_cong [OF 1] by auto
    with IH 1 show "objects sc' j = objects sc j" by simp
  next
    fix m assume j: "j \<in> set (i # objs)" and m: "mesh_of sc j = Some m"
    show "\<exists>m'. transfer_to_mesh h T m = Inr m' \<and> mesh_of sc' j = Some m'"
    proof (cases "j = i")
      case True
      from transfer_to_object_self [OF s1] m True obtain m1 where
        m1: "transfer_to_mesh h T m = Inr m1" "mesh_of sc1 j = Some m1" by auto
      show ?thesis
      proof (cases "j \<in> set objs")
        case True
        with IH m1(2) obtain m' where "transfer_to_mesh h T m1 = Inr m'" "mesh_of sc' j = Some m'"
          by blast
        with transfer_to_mesh_idem [OF m1(1)] m1(1) show ?thesis by simp
      next
        case False
        with IH have "objects sc' j = objects sc1 j" by simp
        from mesh_of_cong [OF this] m1 show ?thesis by simp
      qed
    next
      case False
      with j have jin: "j \<in> set objs" by simp
      from transfer_to_object_other [OF s1 False] have "mesh_of sc1 j = Some m"
        using m by (simp add: mesh_of_def)
      with IH jin show ?thesis by blast
    qed
  qed
qed

lemma transfer_to_object_fixpoint:
  assumes "\<forall>m. mesh_of sc i = Some m \<longrightarrow> transfer_to_mesh h T m = Inr m"
  shows "transfer_to_object h T i sc = Inr sc"
proof (cases "objects sc i")
  case None
  then show ?thesis by (simp add: transfer_to_object_def)
next
  case (Some ob)
  show ?thesis
  proof (cases "obj_data ob")
    case (MeshData m)
    with Some assms have t: "transfer_to_mesh h T m = Inr m" by (simp add: mesh_of_def)
    have "ob\<lparr>obj_data := MeshData m\<rparr> = ob" using MeshData by simp
    then have "(objects sc)(i \<mapsto> ob\<lparr>obj_data := MeshData m\<rparr>) = objects sc"
      using Some by (simp add: fun_upd_idem)
    with Some MeshData t show ?thesis by (simp add: transfer_to_object_def)
  qed (simp_all add: transfer_to_object_def Some)
qed

lemma transfer_all_fixpoint:
  assumes "\<forall>i\<in>set objs. \<forall>m. mesh_of sc i = Some m \<longrightarrow> transfer_to_mesh h T m = Inr m"
  shows "transfer_all h T objs sc = Inr sc"
  using assms
  by (induction objs) (simp_all add: transfer_to_object_fixpoint)

lemma transfer_all_idem:
  assumes "transfer_all h T objs sc = Inr sc'"
  shows "transfer_all h T objs sc' = Inr sc'"
proof (rule transfer_all_fixpoint, intro ballI allI impI)
  fix i m' assume i: "i \<in> set objs" and m': "mesh_of sc' i = Some m'"
  show "transfer_to_mesh h T m' = Inr m'"
  proof (cases "mesh_of sc i")
    case None
    with transfer_all_result [OF assms, of i] have "objects sc' i = objects sc i" by simp
    from mesh_of_cong [OF this] None m' show ?thesis by simp
  next
    case (Some m)
    with transfer_all_result [OF assms, of i] i obtain m1 where
      "transfer_to_mesh h T m = Inr m1" "mesh_of sc' i = Some m1" by blast
    with m' transfer_to_mesh_idem [of h T m m1] show ?thesis by simp
  qed
qed




lemma build_lookup_valid:
  "build_lookup m src lis T0 = Inr T \<Longrightarrow>
     \<forall>li\<in>set lis. loop_key m li = Inr (loop_position_key m li) \<and> li < length src"
proof (induction lis arbitrary: T0)
  case Nil
  then show ?case by simp
next
  case (Cons li lis)
  from Cons.prems have k: "loop_key m li = Inr (loop_position_key m li)" and s: "li < length src"
    by (auto simp: loop_key_Inr split: sum.splits if_splits)
  with Cons.prems have "\<exists>T1. build_lookup m src lis T1 = Inr T" by auto
  with Cons.IH k s show ?case by auto
qed

lemma build_lookup_geometry:
  assumes "vertices m' = vertices m" "loops m' = loops m"
  shows "build_lookup m' src lis T0 = build_lookup m src lis T0"
proof (induction lis arbitrary: T0)
  case Nil
  then show ?case by simp
next
  case (Cons li lis)
  have "loop_key m' li = loop_key m li"
    using loop_key_geometry [OF assms] by simp
  with Cons show ?case
    by (simp split: sum.splits)
qed

lemma build_lookup_first_seen:
  assumes "build_lookup m src (concat (polygons m)) Map.empty = Inr T"
  shows "T = first_seen_uv m src"
  using build_lookup_Inr [OF assms] by (simp add: first_seen_uv_def)

lemma map_of_map_key:
  "map_of (map (\<lambda>x. (f x, g (f x))) xs) k = (if k \<in> f ` set xs then Some (g k) else None)"
  by (induction xs) auto

lemma first_seen_uv_dom: "first_seen_uv m src k = None \<longleftrightarrow> k \<notin> loop_position_key m ` set (concat (polygons m))"
  by (simp add: first_seen_uv_def map_of_eq_None_iff image_image)

lemma first_seen_uv_fixpoint:
  assumes "\<forall>li\<in>set (concat (polygons m)). d' ! li = the (first_seen_uv m src (loop_position_key m li))"
  shows "first_seen_uv m d' = first_seen_uv m src"
proof (rule ext)
  fix k
  have "map (\<lambda>li. (loop_position_key m li, d' ! li)) (concat (polygons m)) =
        map (\<lambda>li. (loop_position_key m li, the (first_seen_uv m src (loop_position_key m li)))) (concat (polygons m))"
    using assms by (intro map_cong) auto
  then have "first_seen_uv m d' k =
     (if k \<in> loop_position_key m ` set (concat (polygons m)) then Some (the (first_seen_uv m src k)) else None)"
    unfolding first_seen_uv_def [of m d']
    by (simp only: map_of_map_key [of "loop_position_key m" "\<lambda>k. the (first_seen_uv m src k)"])
  then show "first_seen_uv m d' k = first_seen_uv m src k"
    using first_seen_uv_dom [of m src k] by (cases "first_seen_uv m src k") auto
qed

lemma has_layer_index: "has_layer nm m \<longleftrightarrow> layer_index nm (uv_layers m) \<noteq> None"
  by (simp add: has_layer_def layer_index_None)

lemma source_lookup_after_transfer:
  assumes "source_lookup sm = Some (Inr T)" "transfer_to_mesh h T sm = Inr sm'"
  shows "source_lookup sm' = Some (Inr T)"
proof -
  let ?lis = "concat (polygons sm)"
  from assms(1) obtain s where
    s: "layer_index LIGHTMAP_UV_NAME (uv_layers sm) = Some s"
    and b: "build_lookup sm (uv_data (uv_layers sm ! s)) ?lis Map.empty = Inr T"
    by (auto simp: source_lookup_def split: option.splits)
  let ?d = "uv_data (uv_layers sm ! s)"
  have w: "with_lightmap_layer h sm = sm"
    using s by (simp add: with_lightmap_layer_def has_layer_index)
  from transfer_to_mesh_Inr [OF assms(2)] s obtain d' where
    c: "copy_uvs T sm ?lis ?d = Inr d'"
    and sm': "sm' = sm\<lparr>uv_layers := set_active_render s ((uv_layers sm)[s := (uv_layers sm ! s)\<lparr>uv_data := d'\<rparr>])\<rparr>"
    unfolding w by auto
  note f = transfer_to_mesh_facts [OF assms(2)]
  from layer_index_Some [OF s] have sl: "s < length (uv_layers sm)" by auto
  from layer_index_cong [OF f(4)] s have s': "layer_index LIGHTMAP_UV_NAME (uv_layers sm') = Some s"
    unfolding w by simp
  have data: "uv_data (uv_layers sm' ! s) = d'"
    unfolding sm' using sl by (simp add: set_active_render_nth)
  note T = build_lookup_first_seen [OF b]
  note v = build_lookup_valid [OF b]
  note cu = copy_uvs_Inr [OF c]
  have len: "length d' = length ?d" using cu by simp
  have vals: "d' ! li = the (first_seen_uv sm ?d (loop_position_key sm li))" if li: "li \<in> set ?lis" for li
  proof -
    from v li have lt: "li < length ?d" by blast
    from li have "first_seen_uv sm ?d (loop_position_key sm li) \<noteq> None"
      unfolding first_seen_uv_dom by blast
    then obtain c where "T (loop_position_key sm li) = Some c" unfolding T by auto
    moreover from cu lt li have "d' ! li = (case T (loop_position_key sm li) of None \<Rightarrow> ?d ! li | Some c \<Rightarrow> c)"
      by simp
    ultimately show ?thesis unfolding T by simp
  qed
  have "\<forall>li\<in>set ?lis. loop_key sm li = Inr (loop_position_key sm li) \<and> li < length d'"
    using v len by simp
  from build_lookup_total [OF this, of Map.empty] obtain T' where
    T': "build_lookup sm d' ?lis Map.empty = Inr T'" by blast
  from build_lookup_first_seen [OF T'] first_seen_uv_fixpoint [of sm d' ?d] vals T
  have "T' = T" by simp
  with T' have "build_lookup sm' d' (concat (polygons sm')) Map.empty = Inr T"
    using build_lookup_geometry [of sm' sm d'] f(1,2,3) by simp
  then show ?thesis
    by (simp add: source_lookup_def s' data)
qed

lemma transfer_twice:
  assumes "transfer_lightmap_uvs_fast h baked objs sc = Inr sc'"
  shows "transfer_lightmap_uvs_fast h baked objs sc' = Inr sc'"
proof (cases baked)
  case None
  with assms show ?thesis by (simp add: transfer_lightmap_uvs_fast_def)
next
  case (Some b)
  show ?thesis
  proof (cases "objects sc b")
    case None
    with assms Some show ?thesis by (simp add: transfer_lightmap_uvs_fast_def)
  next
    case ob: (Some ob)
    show ?thesis
    proof (cases "obj_data ob")
      case (MeshData sm)
      then have msm: "mesh_of sc b = Some sm" using ob by (simp add: mesh_of_def)
      show ?thesis
      proof (cases "source_lookup sm")
        case None
        with assms Some ob MeshData show ?thesis by (simp add: transfer_lightmap_uvs_fast_def)
      next
        case sl: (Some r)
        with assms Some ob MeshData obtain T where
          r: "r = Inr T" and t: "transfer_all h T objs sc = Inr sc'"
          by (cases r) (auto simp: transfer_lightmap_uvs_fast_def)
        note idem = transfer_all_idem [OF t]
        note res = transfer_all_result [OF t, of b]
        show ?thesis
        proof (cases "b \<in> set objs")
          case False
          with res have "objects sc' b = objects sc b" by simp
          with ob MeshData sl r idem Some show ?thesis
            by (simp add: transfer_lightmap_uvs_fast_def)
        next
          case True
          with res msm obtain sm' where
            sm': "transfer_to_mesh h T sm = Inr sm'" "mesh_of sc' b = Some sm'" by blast
          from sm'(2) obtain ob' where ob': "objects sc' b = Some ob'" "obj_data ob' = MeshData sm'"
            by (auto simp: mesh_of_def split: option.splits obj_data.splits)
          from source_lookup_after_transfer [OF _ sm'(1)] sl r
          have "source_lookup sm' = Some (Inr T)" by simp
          with ob' idem Some show ?thesis
            by (simp add: transfer_lightmap_uvs_fast_def)
        qed
      qed
    next
      case (LightData x)
      with assms Some ob show ?thesis by (simp add: transfer_lightmap_uvs_fast_def)
    next
      case OtherData
      with assms Some ob show ?thesis by (simp add: transfer_lightmap_uvs_fast_def)
    qed
  qed
qed















lemmas baked_defs = baked_scene_def mesh_object_def wall_mesh_def floor_mesh_def shelf_mesh_def
  vase_mesh_def baker_mesh_def base_layer_def stray_layer_def lamp_object_def

lemma baked_scene_transfer_eval:
  "(case transfer_lightmap_uvs_fast simple_host (Some 3) [0, 1, 4, 5] baked_scene of
      Inl e \<Rightarrow> False
    | Inr sc' \<Rightarrow>
        map_option lightmap_uvs (mesh_of sc' 0) = Some (Some [(1/10, 1/10), (1/5, 1/10), (1/10, 1/5)]) \<and>
        map_option lightmap_uvs (mesh_of sc' 1) = Some (Some [(1/10, 1/10), (1/5, 1/10), (3/5, 7/10)]) \<and>
        map_option lightmap_uvs (mesh_of sc' 4) = Some (Some [(9/10, 9/10), (9/10, 4/5), (4/5, 9/10)]) \<and>
        map_option lightmap_uvs (mesh_of sc' 5) = Some (Some [(0, 0), (0, 0), (0, 0)]) \<and>
        map_option lightmap_is_render_layer (mesh_of sc' 5) = Some True)"
  by code_simp





subsection \<open>C3: what the fast UV transfer writes\<close>



subsection \<open>C6: the fast UV transfer run twice\<close>

text \<open>
  C6.  When the transfer has returned, a second run with the same baked object and the
  same original objects returns the same scene: it changes no coordinate, layer or
  flag.  This holds also when the baked object is one of the originals.
\<close>

theorem transfer_twice_changes_nothing:
  "transfer_lightmap_uvs_fast h baked objs sc = Inr sc' \<longrightarrow>
     transfer_lightmap_uvs_fast h baked objs sc' = Inr sc'"
  using transfer_twice [of h baked objs sc sc'] by blast

theorem transfer_twice_changes_nothing_witness:
  "\<exists>sc'. transfer_lightmap_uvs_fast simple_host (Some 3) [0, 1, 4, 5] baked_scene = Inr sc' \<and>
         transfer_lightmap_uvs_fast simple_host (Some 3) [0, 1, 4, 5] sc' = Inr sc' \<and>
         map_option lightmap_uvs (mesh_of sc' 0) =
           Some (Some [(1/10, 1/10), (1/5, 1/10), (1/10, 1/5)])"
proof -
  from baked_scene_transfer_eval obtain sc' where
    sc': "transfer_lightmap_uvs_fast simple_host (Some 3) [0, 1, 4, 5] baked_scene = Inr sc'"
      "map_option lightmap_uvs (mesh_of sc' 0) = Some (Some [(1/10, 1/10), (1/5, 1/10), (1/10, 1/5)])"
    by (auto split: sum.splits)
  with transfer_twice_changes_nothing [of simple_host "Some 3" "[0, 1, 4, 5]" baked_scene sc']
  show ?thesis by blast
qed

subsection \<open>C9: the layer LightmapUV after the fast UV transfer\<close>




subsection \<open>C8: verify\_and\_fix\_uv2\<close>



lemma copy_base_uvs_Inr:
  "copy_base_uvs uv1 lis uv2 = Inr d \<Longrightarrow>
     length d = length uv2 \<and>
     (\<forall>j<length uv2. d ! j = (if j \<in> set lis then uv1 ! j else uv2 ! j)) \<and>
     (\<forall>li\<in>set lis. li < length uv1 \<and> li < length uv2)"
proof (induction lis arbitrary: uv2)
  case Nil
  then show ?case by simp
next
  case (Cons li lis)
  from Cons.prems have li: "li < length uv1" "li < length uv2"
    and r: "copy_base_uvs uv1 lis (uv2[li := uv1 ! li]) = Inr d"
    by (auto split: if_splits)
  from Cons.IH [OF r] li show ?case
    by (auto simp: nth_list_update)
qed


lemma set_active_render_append:
  "set_active_render (length ls) (ls @ [l]) ! length ls = l\<lparr>active_render := True\<rparr>"
  by (simp add: set_active_render_nth)

lemma verify_mesh_present:
  assumes "layer_index LIGHTMAP_UV_NAME (uv_layers m) = Some t"
  shows "verify_mesh h m = Inr (m\<lparr>uv_layers := set_active_render t (uv_layers m)\<rparr>)"
  using assms by (simp add: verify_mesh_def)

lemma verify_mesh_missing:
  assumes "verify_mesh h m = Inr m'" "\<not> has_layer LIGHTMAP_UV_NAME m" "uv_layers m \<noteq> []"
  shows "\<exists>d. length d = length (loops m) \<and>
              (\<forall>li<length (loops m). d ! li = uv_data (uv_layers m ! 0) ! li) \<and>
              uv_layers m' = set_active_render (length (uv_layers m)) (uv_layers m) @
                 [\<lparr>layer_name = LIGHTMAP_UV_NAME, uv_data = d, active = False, active_render = True\<rparr>]"
proof -
  let ?n = "length (uv_layers m)"
  let ?new = "\<lparr>layer_name = LIGHTMAP_UV_NAME, uv_data = map (h_uv_init h m) [0..<length (loops m)],
                active = False, active_render = False\<rparr>"
  have none: "layer_index LIGHTMAP_UV_NAME (uv_layers m) = None"
    using assms(2) by (simp add: has_layer_index)
  have sar: "set_active_render ?n (uv_layers m @ [?new]) =
        set_active_render ?n (uv_layers m) @ [?new\<lparr>active_render := True\<rparr>]"
    by (rule nth_equalityI) (auto simp: set_active_render_nth nth_append)
  from assms(1,3) none obtain d where
    c: "copy_base_uvs (uv_data (uv_layers m ! 0)) [0..<length (loops m)]
          (map (h_uv_init h m) [0..<length (loops m)]) = Inr d"
    and m': "m' = (uv_layers_new h LIGHTMAP_UV_NAME m)\<lparr>uv_layers :=
               (set_active_render ?n (uv_layers m @ [?new]))
                 [?n := (set_active_render ?n (uv_layers m @ [?new]) ! ?n)\<lparr>uv_data := d\<rparr>]\<rparr>"
    by (auto simp: verify_mesh_def uv_layers_new_def Let_def set_active_render_nth split: sum.splits)
  from copy_base_uvs_Inr [OF c] have d: "length d = length (loops m)"
    "\<forall>li<length (loops m). d ! li = uv_data (uv_layers m ! 0) ! li" by auto
  have "uv_layers m' = set_active_render ?n (uv_layers m) @
                 [\<lparr>layer_name = LIGHTMAP_UV_NAME, uv_data = d, active = False, active_render = True\<rparr>]"
    unfolding m' sar by (simp add: list_update_append nth_append)
  with d show ?thesis by blast
qed

lemma verify_mesh_geometry:
  assumes "verify_mesh h m = Inr m'"
  shows "vertices m' = vertices m" "loops m' = loops m" "polygons m' = polygons m"
  using assms
  by (auto simp: verify_mesh_def uv_layers_new_def Let_def split: option.splits if_splits sum.splits)

lemma verify_mesh_no_layers:
  assumes "uv_layers m = []"
  shows "verify_mesh h m = Inr m"
  using assms by (simp add: verify_mesh_def)

lemma verify_mesh_result:
  assumes "verify_mesh h m = Inr m'" "uv_layers m \<noteq> []"
  shows "has_layer LIGHTMAP_UV_NAME m' \<and> lightmap_is_render_layer m' \<and>
         (has_layer LIGHTMAP_UV_NAME m \<longrightarrow>
            map uv_data (uv_layers m') = map uv_data (uv_layers m) \<and>
            map layer_name (uv_layers m') = map layer_name (uv_layers m)) \<and>
         (\<not> has_layer LIGHTMAP_UV_NAME m \<longrightarrow>
            (\<exists>d. lightmap_uvs m' = Some d \<and> length d = length (loops m) \<and>
                 (\<forall>li<length (loops m). d ! li = uv_data (uv_layers m ! 0) ! li)) \<and>
            map layer_name (uv_layers m') = map layer_name (uv_layers m) @ [LIGHTMAP_UV_NAME] \<and>
            take (length (uv_layers m)) (map uv_data (uv_layers m')) = map uv_data (uv_layers m))"
proof (cases "has_layer LIGHTMAP_UV_NAME m")
  case True
  then obtain t where t: "layer_index LIGHTMAP_UV_NAME (uv_layers m) = Some t"
    by (auto simp: has_layer_index)
  with assms(1) have m': "m' = m\<lparr>uv_layers := set_active_render t (uv_layers m)\<rparr>"
    by (simp add: verify_mesh_present)
  from layer_index_Some [OF t] have tl: "t < length (uv_layers m)" by simp
  have names: "map layer_name (uv_layers m') = map layer_name (uv_layers m)"
    unfolding m' by simp
  from layer_index_cong [OF names] t have t': "layer_index LIGHTMAP_UV_NAME (uv_layers m') = Some t"
    by simp
  have "lightmap_is_render_layer m'"
    unfolding lightmap_is_render_layer_def t' using tl by (simp add: m' set_active_render_nth)
  moreover have "has_layer LIGHTMAP_UV_NAME m'"
    using t' by (simp add: has_layer_index)
  moreover have "map uv_data (uv_layers m') = map uv_data (uv_layers m)"
    unfolding m' by (simp add: set_active_render_data)
  ultimately show ?thesis using True names by simp
next
  case False
  let ?n = "length (uv_layers m)"
  from verify_mesh_missing [OF assms(1) False assms(2)] obtain d where
    d: "length d = length (loops m)" "\<forall>li<length (loops m). d ! li = uv_data (uv_layers m ! 0) ! li"
    and ls: "uv_layers m' = set_active_render ?n (uv_layers m) @
                 [\<lparr>layer_name = LIGHTMAP_UV_NAME, uv_data = d, active = False, active_render = True\<rparr>]"
    by blast
  have names: "map layer_name (uv_layers m') = map layer_name (uv_layers m) @ [LIGHTMAP_UV_NAME]"
    unfolding ls by simp
  have "LIGHTMAP_UV_NAME \<notin> layer_name ` set (set_active_render ?n (uv_layers m))"
    using False names_set_active_render [of ?n "uv_layers m"]
    unfolding has_layer_def by (metis set_map)
  then have t': "layer_index LIGHTMAP_UV_NAME (uv_layers m') = Some ?n"
    unfolding ls using layer_index_append_new [of LIGHTMAP_UV_NAME "set_active_render ?n (uv_layers m)"]
    by simp
  have nth: "uv_layers m' ! ?n = \<lparr>layer_name = LIGHTMAP_UV_NAME, uv_data = d, active = False, active_render = True\<rparr>"
    unfolding ls by (simp add: nth_append)
  have "lightmap_is_render_layer m'"
    unfolding lightmap_is_render_layer_def t' by (simp add: nth)
  moreover have "has_layer LIGHTMAP_UV_NAME m'"
    using t' by (simp add: has_layer_index)
  moreover have "lightmap_uvs m' = Some d"
    by (simp add: lightmap_uvs_def t' nth)
  moreover have "take ?n (map uv_data (uv_layers m')) = map uv_data (uv_layers m)"
    unfolding ls by (simp add: set_active_render_data)
  ultimately show ?thesis using False names d by blast
qed

lemma verify_mesh_idem:
  assumes "verify_mesh h m = Inr m'"
  shows "verify_mesh h m' = Inr m'"
proof (cases "uv_layers m = []")
  case True
  with assms verify_mesh_no_layers [OF True, of h] show ?thesis by simp
next
  case False
  from verify_mesh_result [OF assms False] obtain t where
    t: "layer_index LIGHTMAP_UV_NAME (uv_layers m') = Some t" and r: "lightmap_is_render_layer m'"
    by (auto simp: has_layer_index)
  have "set_active_render t (uv_layers m') = uv_layers m'"
  proof (cases "has_layer LIGHTMAP_UV_NAME m")
    case True
    then obtain t0 where t0: "layer_index LIGHTMAP_UV_NAME (uv_layers m) = Some t0"
      by (auto simp: has_layer_index)
    with assms have m': "m' = m\<lparr>uv_layers := set_active_render t0 (uv_layers m)\<rparr>"
      by (simp add: verify_mesh_present)
    have "map layer_name (uv_layers m') = map layer_name (uv_layers m)" unfolding m' by simp
    from layer_index_cong [OF this] t t0 have "t = t0" by simp
    then show ?thesis unfolding m' by (simp add: set_active_render_idem)
  next
    case nl: False
    let ?n = "length (uv_layers m)"
    from verify_mesh_missing [OF assms nl False] obtain d where
      ls: "uv_layers m' = set_active_render ?n (uv_layers m) @
                 [\<lparr>layer_name = LIGHTMAP_UV_NAME, uv_data = d, active = False, active_render = True\<rparr>]"
      by blast
    have "LIGHTMAP_UV_NAME \<notin> layer_name ` set (set_active_render ?n (uv_layers m))"
      using nl names_set_active_render [of ?n "uv_layers m"]
      unfolding has_layer_def by (metis set_map)
    then have "layer_index LIGHTMAP_UV_NAME (uv_layers m') = Some ?n"
      unfolding ls using layer_index_append_new [of LIGHTMAP_UV_NAME "set_active_render ?n (uv_layers m)"]
      by simp
    with t have tn: "t = ?n" by simp
    show ?thesis
      unfolding ls tn
      by (rule nth_equalityI) (auto simp: set_active_render_nth nth_append)
  qed
  with verify_mesh_present [OF t, of h] show ?thesis by simp
qed

lemma verify_object_Inr:
  assumes "verify_object h i sc = Inr sc'"
  shows "(mesh_of sc i = None \<and> sc' = sc) \<or>
         (\<exists>ob m m'. objects sc i = Some ob \<and> obj_data ob = MeshData m \<and>
            verify_mesh h m = Inr m' \<and>
            sc' = sc\<lparr>objects := (objects sc)(i \<mapsto> ob\<lparr>obj_data := MeshData m'\<rparr>)\<rparr>)"
  using assms
  by (auto simp: verify_object_def mesh_of_def split: option.splits obj_data.splits sum.splits)

lemma verify_object_other:
  assumes "verify_object h i sc = Inr sc'" "j \<noteq> i"
  shows "objects sc' j = objects sc j"
  using verify_object_Inr [OF assms(1)] assms(2) by auto

lemma verify_object_self:
  assumes "verify_object h i sc = Inr sc'" "mesh_of sc i = Some m"
  shows "\<exists>m'. verify_mesh h m = Inr m' \<and> mesh_of sc' i = Some m'"
  using verify_object_Inr [OF assms(1)] assms(2)
  by (auto simp: mesh_of_def split: option.splits obj_data.splits)

lemma verify_object_no_mesh:
  assumes "verify_object h i sc = Inr sc'" "mesh_of sc j = None"
  shows "objects sc' j = objects sc j"
  using verify_object_Inr [OF assms(1)] assms(2)
  by (auto simp: mesh_of_def split: option.splits obj_data.splits)

lemma verify_all_result:
  assumes "verify_and_fix_uv2 h objs sc = Inr sc'"
  shows "(j \<notin> set objs \<or> mesh_of sc j = None \<longrightarrow> objects sc' j = objects sc j) \<and>
         (j \<in> set objs \<longrightarrow> (\<forall>m. mesh_of sc j = Some m \<longrightarrow>
            (\<exists>m'. verify_mesh h m = Inr m' \<and> mesh_of sc' j = Some m')))"
  using assms
proof (induction objs arbitrary: sc)
  case Nil
  then show ?case by simp
next
  case (Cons i objs)
  from Cons.prems obtain sc1 where
    s1: "verify_object h i sc = Inr sc1" and r: "verify_and_fix_uv2 h objs sc1 = Inr sc'"
    by (auto split: sum.splits)
  note IH = Cons.IH [OF r]
  show ?case
  proof (intro conjI impI allI)
    assume a: "j \<notin> set (i # objs) \<or> mesh_of sc j = None"
    have 1: "objects sc1 j = objects sc j"
      using a verify_object_other [OF s1, of j] verify_object_no_mesh [OF s1, of j] by auto
    then have "j \<notin> set objs \<or> mesh_of sc1 j = None"
      using a mesh_of_cong [OF 1] by auto
    with IH 1 show "objects sc' j = objects sc j" by simp
  next
    fix m assume j: "j \<in> set (i # objs)" and m: "mesh_of sc j = Some m"
    show "\<exists>m'. verify_mesh h m = Inr m' \<and> mesh_of sc' j = Some m'"
    proof (cases "j = i")
      case True
      from verify_object_self [OF s1] m True obtain m1 where
        m1: "verify_mesh h m = Inr m1" "mesh_of sc1 j = Some m1" by auto
      show ?thesis
      proof (cases "j \<in> set objs")
        case True
        with IH m1(2) obtain m' where "verify_mesh h m1 = Inr m'" "mesh_of sc' j = Some m'"
          by blast
        with verify_mesh_idem [OF m1(1)] m1(1) show ?thesis by simp
      next
        case False
        with IH have "objects sc' j = objects sc1 j" by simp
        from mesh_of_cong [OF this] m1 show ?thesis by simp
      qed
    next
      case False
      with j have jin: "j \<in> set objs" by simp
      from verify_object_other [OF s1 False] have "mesh_of sc1 j = Some m"
        using m by (simp add: mesh_of_def)
      with IH jin show ?thesis by blast
    qed
  qed
qed

lemma verify_object_fixpoint:
  assumes "\<forall>m. mesh_of sc i = Some m \<longrightarrow> verify_mesh h m = Inr m"
  shows "verify_object h i sc = Inr sc"
proof (cases "objects sc i")
  case None
  then show ?thesis by (simp add: verify_object_def)
next
  case (Some ob)
  show ?thesis
  proof (cases "obj_data ob")
    case (MeshData m)
    with Some assms have t: "verify_mesh h m = Inr m" by (simp add: mesh_of_def)
    have "ob\<lparr>obj_data := MeshData m\<rparr> = ob" using MeshData by simp
    then have "(objects sc)(i \<mapsto> ob\<lparr>obj_data := MeshData m\<rparr>) = objects sc"
      using Some by (simp add: fun_upd_idem)
    with Some MeshData t show ?thesis by (simp add: verify_object_def)
  qed (simp_all add: verify_object_def Some)
qed

lemma verify_all_fixpoint:
  assumes "\<forall>i\<in>set objs. \<forall>m. mesh_of sc i = Some m \<longrightarrow> verify_mesh h m = Inr m"
  shows "verify_and_fix_uv2 h objs sc = Inr sc"
  using assms
  by (induction objs) (simp_all add: verify_object_fixpoint)

lemma verify_all_idem:
  assumes "verify_and_fix_uv2 h objs sc = Inr sc'"
  shows "verify_and_fix_uv2 h objs sc' = Inr sc'"
proof (rule verify_all_fixpoint, intro ballI allI impI)
  fix i m' assume i: "i \<in> set objs" and m': "mesh_of sc' i = Some m'"
  show "verify_mesh h m' = Inr m'"
  proof (cases "mesh_of sc i")
    case None
    with verify_all_result [OF assms, of i] have "objects sc' i = objects sc i" by simp
    from mesh_of_cong [OF this] None m' show ?thesis by simp
  next
    case (Some m)
    with verify_all_result [OF assms, of i] i obtain m1 where
      "verify_mesh h m = Inr m1" "mesh_of sc' i = Some m1" by blast
    with m' verify_mesh_idem [of h m m1] show ?thesis by simp
  qed
qed

















subsection \<open>C7: the materials handed to the exporter\<close>


lemma is_lightmap_image_node_unlink [simp]:
  "is_lightmap_image_node (k\<lparr>node_vector := v\<rparr>) = is_lightmap_image_node k"
  by (simp add: is_lightmap_image_node_def)




lemma clean_material_use_nodes [simp]: "use_nodes (clean_material mat) = use_nodes mat"
  by (simp add: clean_material_def Let_def)

lemma clean_slot_objects [simp]: "objects (clean_slot slot sc) = objects sc"
  by (simp add: clean_slot_def split: option.splits)



lemma fold_clean_slot_objects [simp]: "objects (fold clean_slot slots sc) = objects sc"
  by (induction slots arbitrary: sc) simp_all



lemma clean_object_objects [simp]: "objects (clean_object i sc) = objects sc"
  by (simp add: clean_object_def split: option.splits)



lemma clean_all_objects [simp]: "objects (clean_lightmap_nodes_from_materials objs sc) = objects sc"
  unfolding clean_lightmap_nodes_from_materials_def
  by (induction objs arbitrary: sc) simp_all



lemma select_set_materials [simp]: "materials (select_set v i sc) = materials sc"
  by (simp add: select_set_def update_object_def split: option.splits)

lemma fold_select_set_materials [simp]: "materials (fold (select_set v) objs sc) = materials sc"
  by (induction objs arbitrary: sc) simp_all

lemma deselect_all_materials [simp]: "materials (deselect_all sc) = materials sc"
  by (simp add: deselect_all_def)








lemma painted_scene_export_eval:
  "collections_get MANSION_COLLECTION_NAME painted_scene = Some (Collection ''Mansion'' [0, 1, 4, 5] []) \<and>
   map_option (\<lambda>ob. (is_mesh ob, material_slots ob)) (objects (snd (export_mansion_glb simple_host painted_scene)) 0) =
     Some (True, [Some 0]) \<and>
   map_option (\<lambda>mat. (use_nodes mat, nodes mat)) (materials (snd (export_mansion_glb simple_host painted_scene)) 0) =
     Some (True, [image_node ''Image Texture'' ''Bricks''])"
  by code_simp

lemma stale_scene_export_eval:
  "collections_get MANSION_COLLECTION_NAME stale_scene = Some (Collection ''Mansion'' [0, 1, 4, 5] []) \<and>
   map_option (\<lambda>ob. (is_mesh ob, material_slots ob)) (objects (snd (export_mansion_glb simple_host stale_scene)) 0) =
     Some (True, [Some 0]) \<and>
   map_option nodes (materials (snd (export_mansion_glb simple_host stale_scene)) 0) =
     Some [image_node ''Image Texture'' ''Mansion_Lightmap_On''] \<and>
   is_lightmap_image_node (image_node ''Image Texture'' ''Mansion_Lightmap_On'')"
  by code_simp






subsection \<open>C10: a Mansion collection with a single mesh object\<close>


lemma fold_invariant: "(\<And>x s. g (f x s) = g s) \<Longrightarrow> g (fold f xs s) = g s"
  by (induction xs arbitrary: s) simp_all

text \<open>The collection hierarchy is untouched by the stages that only edit objects.\<close>

lemma collection_update_object [simp]: "scene_collection (update_object i f sc) = scene_collection sc"
  by (simp add: update_object_def split: option.splits)

lemma collection_deselect_all [simp]: "scene_collection (deselect_all sc) = scene_collection sc"
  by (simp add: deselect_all_def)

lemma collection_select_set [simp]: "scene_collection (select_set v i sc) = scene_collection sc"
  by (simp add: select_set_def)

lemma collection_fold_select_set [simp]:
  "scene_collection (fold (select_set v) objs sc) = scene_collection sc"
  by (rule fold_invariant) simp

lemma collection_edit_selected [simp]: "scene_collection (edit_selected f sc) = scene_collection sc"
  by (simp add: edit_selected_def)

lemma collection_ensure_uv1_exists [simp]:
  "scene_collection (ensure_uv1_exists h objs sc) = scene_collection sc"
  unfolding ensure_uv1_exists_def by (rule fold_invariant) simp

lemma collection_apply_modifiers [simp]:
  "scene_collection (apply_modifiers h objs sc) = scene_collection sc"
proof -
  have "scene_collection (fold (\<lambda>i s.
             select_set False i
               (update_object i (\<lambda>ob. fold (apply_modifier h) (rev (modifiers ob)) ob)
                 (select_set True i (s\<lparr>active_object := Some i\<rparr>)))) objs s) = scene_collection s" for s
    by (rule fold_invariant) simp
  then show ?thesis by (simp add: apply_modifiers_def)
qed

lemma collection_cleanup_meshes [simp]:
  "scene_collection (cleanup_meshes h objs sc) = scene_collection sc"
  by (simp add: cleanup_meshes_def Let_def split: list.splits del: fold_simps)

lemma collection_unwrap_lightmap [simp]:
  "scene_collection (unwrap_lightmap h sc) = scene_collection sc"
  by (simp add: unwrap_lightmap_def Let_def split: option.splits)




text \<open>No stage but the join adds or deletes an object.\<close>

lemma dom_update_object [simp]: "dom (objects (update_object i f sc)) = dom (objects sc)"
  by (auto simp: update_object_def split: option.splits)

lemma dom_deselect_all [simp]: "dom (objects (deselect_all sc)) = dom (objects sc)"
  by (auto simp: deselect_all_def dom_def)

lemma dom_select_set [simp]: "dom (objects (select_set v i sc)) = dom (objects sc)"
  by (simp add: select_set_def)

lemma dom_fold_select_set [simp]: "dom (objects (fold (select_set v) objs sc)) = dom (objects sc)"
  by (rule fold_invariant [where g = "\<lambda>s. dom (objects s)"]) simp

lemma dom_edit_selected [simp]: "dom (objects (edit_selected f sc)) = dom (objects sc)"
  by (auto simp: edit_selected_def dom_def)

lemma dom_ensure_uv1_exists [simp]: "dom (objects (ensure_uv1_exists h objs sc)) = dom (objects sc)"
  unfolding ensure_uv1_exists_def
  by (rule fold_invariant [where g = "\<lambda>s. dom (objects s)"]) simp

lemma dom_apply_modifiers [simp]: "dom (objects (apply_modifiers h objs sc)) = dom (objects sc)"
proof -
  have "dom (objects (fold (\<lambda>i s.
             select_set False i
               (update_object i (\<lambda>ob. fold (apply_modifier h) (rev (modifiers ob)) ob)
                 (select_set True i (s\<lparr>active_object := Some i\<rparr>)))) objs s)) = dom (objects s)" for s
    by (rule fold_invariant [where g = "\<lambda>s. dom (objects s)"]) simp
  then show ?thesis by (simp add: apply_modifiers_def)
qed

lemma dom_cleanup_meshes [simp]: "dom (objects (cleanup_meshes h objs sc)) = dom (objects sc)"
  by (simp add: cleanup_meshes_def Let_def split: list.splits del: fold_simps)

lemma dom_unwrap_lightmap [simp]: "dom (objects (unwrap_lightmap h sc)) = dom (objects sc)"
  by (simp add: unwrap_lightmap_def Let_def split: option.splits)

lemma dom_active_object [simp]: "dom (objects (sc\<lparr>active_object := a\<rparr>)) = dom (objects sc)"
  by simp





lemma objects_configure_emission:
  "objects (snd (configure_emission turn_on i st)) = objects (snd st)"
  by (cases st) (auto simp: configure_emission_def Let_def split: option.splits prod.splits)



lemma objects_add_image_node [simp]: "objects (add_image_node h image_name slot sc) = objects sc"
  by (simp add: add_image_node_def split: option.splits)

lemma objects_fold_add_image_node [simp]:
  "objects (fold (add_image_node h image_name) slots sc) = objects sc"
  by (rule fold_invariant) simp








lemma objects_fix_slot [simp]: "objects (fix_slot h slot sc) = objects sc"
  by (simp add: fix_slot_def split: option.splits)

lemma objects_fix_texture [simp]: "objects (fix_texture_uv_assignments h objs sc) = objects sc"
proof -
  have "objects (fold (fix_slot h) slots s) = objects s" for slots s
    by (rule fold_invariant) simp
  then have "objects (case objects s i of
                    None \<Rightarrow> s
                  | Some ob \<Rightarrow> (if is_mesh ob then fold (fix_slot h) (material_slots ob) s else s)) = objects s"
    for i s by (simp split: option.splits)
  then show ?thesis
    unfolding fix_texture_uv_assignments_def by (rule fold_invariant)
qed













subsection \<open>C2: the UV layers of the unwrapped mesh\<close>



lemma layer_names_mesh_cong: "mesh_of sc' i = mesh_of sc i \<Longrightarrow> layer_names sc' i = layer_names sc i"
  by (simp add: layer_names_def)


lemma mesh_of_configure_light:
  "mesh_of (snd (configure_light turn_on j st)) i = mesh_of (snd st) i"
  by (cases st) (auto simp: configure_light_def Let_def mesh_of_def split: option.splits obj_data.splits)

lemma mesh_of_configure_object:
  "mesh_of (snd (snd (configure_object turn_on j st))) i = mesh_of (snd (snd st)) i"
proof -
  obtain en em sc where st: "st = (en, em, sc)" by (cases st) auto
  obtain en1 sc1 where l: "configure_light turn_on j (en, sc) = (en1, sc1)"
    by (cases "configure_light turn_on j (en, sc)") auto
  obtain em1 sc2 where e: "configure_emission turn_on j (em, sc1) = (em1, sc2)"
    by (cases "configure_emission turn_on j (em, sc1)") auto
  from mesh_of_configure_light [of turn_on j "(en, sc)" i] l have "mesh_of sc1 i = mesh_of sc i"
    by simp
  moreover from objects_configure_emission [of turn_on j "(em, sc1)"] e have "objects sc2 = objects sc1"
    by simp
  ultimately show ?thesis
    by (simp add: st configure_object_def l e mesh_of_def)
qed

lemma mesh_of_configure_lights [simp]:
  "mesh_of (configure_lights image_name on off sc) i = mesh_of sc i"
proof -
  have "mesh_of (snd (snd (fold (configure_object t) objs st))) i = mesh_of (snd (snd st)) i"
    for t objs st
    by (rule fold_invariant [where g = "\<lambda>st. mesh_of (snd (snd st)) i"])
       (rule mesh_of_configure_object)
  then show ?thesis
    by (simp add: configure_lights_def Let_def)
qed






lemma mesh_of_hide_object [simp]: "mesh_of (hide_object j sc) i = mesh_of sc i"
  by (simp add: hide_object_def mesh_of_def update_object_def split: option.splits)

lemma mesh_of_fix_texture [simp]: "mesh_of (fix_texture_uv_assignments h objs sc) i = mesh_of sc i"
  by (simp add: mesh_of_def)

lemma mesh_of_clean_all [simp]:
  "mesh_of (clean_lightmap_nodes_from_materials objs sc) i = mesh_of sc i"
  by (simp add: mesh_of_def)

lemma mesh_of_export [simp]: "mesh_of (snd (export_mansion_glb h sc)) i = mesh_of sc i"
  by (simp add: export_mansion_glb_def Let_def split: option.splits)









end
